theory Spec2Isabelle
  imports Complex_Main
begin

section \<open>Buffers, flags and the BLAS calls the fault-tolerant kernels issue\<close>

text \<open>
  A \<^verbatim>\<open>double *\<close> is a buffer indexed from the pointer; \<^verbatim>\<open>p + off\<close> read through is
  the shifted buffer. Doubles are idealised as reals: rounding is not modelled, so every
  equation below is an equation of exact arithmetic. Dimensions, leading dimensions and
  strides are natural numbers (the BLAS rejects negative ones without doing any work).
  Streams and queues are not modelled: the calls take effect in program order.
\<close>

type_synonym buf = "nat \<Rightarrow> real"

datatype magma_trans_t = MagmaNoTrans | MagmaTrans | MagmaConjTrans

datatype magma_uplo_t = MagmaUpper | MagmaLower

text \<open>
  What ends a run abnormally: an integer division by zero; a double that is an infinity
  or a NaN where the model needs a real number; a write in front of a buffer.
\<close>

datatype fault = IntDivByZero | NonFinite | WriteBeforeBuffer

definition shift :: "buf \<Rightarrow> nat \<Rightarrow> buf" where
  "shift A off = (\<lambda>p. A (off + p))"

text \<open>Column-major addressing: entry \<open>(i, j)\<close> of a matrix with leading dimension \<open>ld\<close>.\<close>

definition elem :: "buf \<Rightarrow> nat \<Rightarrow> nat \<Rightarrow> nat \<Rightarrow> real" where
  "elem A ld i j = A (i + j * ld)"

definition op_elem :: "magma_trans_t \<Rightarrow> buf \<Rightarrow> nat \<Rightarrow> nat \<Rightarrow> nat \<Rightarrow> real" where
  "op_elem t A ld i j = (if t = MagmaNoTrans then elem A ld i j else elem A ld j i)"

text \<open>
  \<^verbatim>\<open>magma_dgemm\<close> (interface_cuda/blas_d_v2.cpp) hands its arguments to the vendor GEMM:
  \<open>C = alpha op(A) op(B) + beta C\<close> on the \<open>m\<close> by \<open>n\<close> matrix \<open>C\<close>, with
  \<open>ldda \<ge> max(1, rows of A)\<close>, \<open>lddb \<ge> max(1, rows of B)\<close>, \<open>lddc \<ge> max(1, m)\<close>.
  A call that breaks these bounds is rejected by the vendor routine and the wrapper drops
  the status: the output buffer is left as it was.
\<close>

definition dgemm_args_ok ::
  "magma_trans_t \<Rightarrow> magma_trans_t \<Rightarrow> nat \<Rightarrow> nat \<Rightarrow> nat \<Rightarrow> nat \<Rightarrow> nat \<Rightarrow> nat \<Rightarrow> bool" where
  "dgemm_args_ok transA transB m n k ldda lddb lddc =
     (max 1 (if transA = MagmaNoTrans then m else k) \<le> ldda \<and>
      max 1 (if transB = MagmaNoTrans then k else n) \<le> lddb \<and>
      max 1 m \<le> lddc)"

definition magma_dgemm ::
  "magma_trans_t \<Rightarrow> magma_trans_t \<Rightarrow> nat \<Rightarrow> nat \<Rightarrow> nat \<Rightarrow> real \<Rightarrow>
   buf \<Rightarrow> nat \<Rightarrow> buf \<Rightarrow> nat \<Rightarrow> real \<Rightarrow> buf \<Rightarrow> nat \<Rightarrow> buf" where
  "magma_dgemm transA transB m n k alpha A ldda B lddb beta C lddc =
     (if \<not> dgemm_args_ok transA transB m n k ldda lddb lddc then C
      else (\<lambda>p. if p mod lddc < m \<and> p div lddc < n
                 then alpha * (\<Sum>l<k. op_elem transA A ldda (p mod lddc) l *
                                        op_elem transB B lddb l (p div lddc))
                      + beta * C p
                 else C p))"

text \<open>
  \<^verbatim>\<open>magma_dgemv\<close>: \<open>y = alpha op(A) x + beta y\<close> for the \<open>m\<close> by \<open>n\<close> matrix \<open>A\<close>,
  \<open>ldda \<ge> max(1, m)\<close>, both strides nonzero; a call outside these bounds is rejected
  and leaves \<open>y\<close> as it was.
\<close>

definition magma_dgemv ::
  "magma_trans_t \<Rightarrow> nat \<Rightarrow> nat \<Rightarrow> real \<Rightarrow> buf \<Rightarrow> nat \<Rightarrow> buf \<Rightarrow> nat \<Rightarrow> real \<Rightarrow>
   buf \<Rightarrow> nat \<Rightarrow> buf" where
  "magma_dgemv transA m n alpha A ldda x incx beta y incy =
     (if ldda < max 1 m \<or> incx = 0 \<or> incy = 0 then y
      else (\<lambda>p. if p mod incy = 0 \<and> p div incy < (if transA = MagmaNoTrans then m else n)
                 then alpha * (\<Sum>i<(if transA = MagmaNoTrans then n else m).
                                 op_elem transA A ldda (p div incy) i * x (i * incx))
                      + beta * y p
                 else y p))"

text \<open>
  \<^verbatim>\<open>magma_dsyrk\<close>: \<open>C = alpha A A\<^sup>T + beta C\<close> (no transpose) or
  \<open>C = alpha A\<^sup>T A + beta C\<close> (transpose) on the \<open>uplo\<close> triangle of the \<open>n\<close> by \<open>n\<close>
  matrix \<open>C\<close>; the other triangle is not referenced. (The argument \<open>trans\<close> of the
  source is written \<open>trans_op\<close> here and below.)
\<close>

definition magma_dsyrk ::
  "magma_uplo_t \<Rightarrow> magma_trans_t \<Rightarrow> nat \<Rightarrow> nat \<Rightarrow> real \<Rightarrow> buf \<Rightarrow> nat \<Rightarrow> real \<Rightarrow>
   buf \<Rightarrow> nat \<Rightarrow> buf" where
  "magma_dsyrk uplo trans_op n k alpha A ldda beta C lddc =
     (if ldda < max 1 (if trans_op = MagmaNoTrans then n else k) \<or> lddc < max 1 n then C
      else (\<lambda>p. if p mod lddc < n \<and> p div lddc < n \<and>
                    (if uplo = MagmaLower then p div lddc \<le> p mod lddc
                     else p mod lddc \<le> p div lddc)
                 then alpha * (\<Sum>l<k. op_elem trans_op A ldda (p mod lddc) l *
                                        op_elem trans_op A ldda (p div lddc) l)
                      + beta * C p
                 else C p))"

text \<open>
  A routine that writes through \<^verbatim>\<open>y + off\<close> sees the buffer from \<open>off\<close> on and leaves what
  lies in front of it alone.
\<close>

definition at_offset :: "nat \<Rightarrow> (buf \<Rightarrow> buf) \<Rightarrow> buf \<Rightarrow> buf" where
  "at_offset off f y = (\<lambda>p. if p < off then y p else f (shift y off) (p - off))"



text \<open>
  \<^verbatim>\<open>daxpy\<close>: \<open>y[i incy] += alpha x[i incx]\<close> for \<open>i < n\<close>, one element after the other.
  \<^verbatim>\<open>dtrmv\<close> with the flags dpotrfFT passes (lower, transposed, non-unit): \<open>x = A\<^sup>T x\<close>.
\<close>

definition blasf77_daxpy :: "nat \<Rightarrow> real \<Rightarrow> buf \<Rightarrow> nat \<Rightarrow> buf \<Rightarrow> nat \<Rightarrow> buf" where
  "blasf77_daxpy n alpha x incx y incy =
     fold (\<lambda>i y. y(i * incy := y (i * incy) + alpha * x (i * incx))) [0..<n] y"

definition blasf77_dtrmv_lower_trans_nonunit :: "nat \<Rightarrow> buf \<Rightarrow> nat \<Rightarrow> buf \<Rightarrow> nat \<Rightarrow> buf" where
  "blasf77_dtrmv_lower_trans_nonunit n A lda x incx =
     (if lda < max 1 n \<or> incx = 0 then x
      else (\<lambda>p. if p mod incx = 0 \<and> p div incx < n
                 then (\<Sum>i = p div incx..<n. elem A lda i (p div incx) * x (i * incx))
                 else x p))"

section \<open>abft\_dgemm (magma-2.0.2/magmablas/abft\_dgemm.cpp)\<close>

text \<open>
  The buffers of one call. The model keeps them apart: no two of them overlap.
\<close>

record gemm_mem =
  dA :: buf
  dB :: buf
  dC :: buf
  dA_colchk :: buf
  dA_rowchk :: buf
  dA_colchk_r :: buf
  dA_rowchk_r :: buf
  dB_colchk :: buf
  dB_rowchk :: buf
  dB_colchk_r :: buf
  dB_rowchk_r :: buf
  dC_colchk :: buf
  dC_rowchk :: buf
  dC_colchk_r :: buf
  dC_rowchk_r :: buf
  chk_v :: buf

text \<open>The leading dimensions of the checksum buffers.\<close>

record gemm_ld =
  ldda_colchk :: nat
  ldda_rowchk :: nat
  ldda_colchk_r :: nat
  ldda_rowchk_r :: nat
  lddb_colchk :: nat
  lddb_rowchk :: nat
  lddb_colchk_r :: nat
  lddb_rowchk_r :: nat
  lddc_colchk :: nat
  lddc_rowchk :: nat
  lddc_colchk_r :: nat
  lddc_rowchk_r :: nat
  ld_chk_v :: nat

text \<open>
  \<^verbatim>\<open>abft_checker_colchk\<close> and \<^verbatim>\<open>abft_checker_rowchk\<close> are declared in abft\_checker.h
  and defined outside this file. They are parameters of the model: a checker receives the data
  buffer, its leading dimension, \<open>mem_row\<close>, \<open>mem_col\<close>, \<open>nb\<close>, the stored checksum, the
  buffer for the recomputed checksum, the weight vectors (each with its leading
  dimension) and \<open>DEBUG\<close>, and may write any of the four buffers it is handed.
\<close>

type_synonym abft_checker =
  "buf \<Rightarrow> nat \<Rightarrow> nat \<Rightarrow> nat \<Rightarrow> nat \<Rightarrow> buf \<Rightarrow> nat \<Rightarrow> buf \<Rightarrow> nat \<Rightarrow> buf \<Rightarrow> nat \<Rightarrow> bool \<Rightarrow>
   buf \<times> buf \<times> buf \<times> buf"

text \<open>
  A checker that finds nothing to correct hands back the data and the stored checksum as
  it received them (it may still fill the buffer of the recomputed checksum).
\<close>

definition checker_keeps :: "abft_checker \<Rightarrow> bool" where
  "checker_keeps f =
     (\<forall>d l r c b ch lch chr lchr v lv dbg.
        fst (f d l r c b ch lch chr lchr v lv dbg) = d \<and>
        fst (snd (f d l r c b ch lch chr lchr v lv dbg)) = ch)"

text \<open>Lines 43--112: the checks of A, B and C before the product.\<close>

definition abft_dgemm_check_A ::
  "abft_checker \<Rightarrow> abft_checker \<Rightarrow> magma_trans_t \<Rightarrow> nat \<Rightarrow> nat \<Rightarrow> nat \<Rightarrow> nat \<Rightarrow>
   gemm_ld \<Rightarrow> bool \<Rightarrow> gemm_mem \<Rightarrow> gemm_mem" where
  "abft_dgemm_check_A abft_checker_colchk abft_checker_rowchk transA m k ldda nb ld DEBUG s =
     (if transA = MagmaNoTrans then
        (case abft_checker_colchk (dA s) ldda m k nb
                (dA_colchk s) (ldda_colchk ld) (dA_colchk_r s) (ldda_colchk_r ld)
                (chk_v s) (ld_chk_v ld) DEBUG of
           (a, c, r, v) \<Rightarrow> s\<lparr>dA := a, dA_colchk := c, dA_colchk_r := r, chk_v := v\<rparr>)
      else
        (case abft_checker_rowchk (dA s) ldda k m nb
                (dA_rowchk s) (ldda_rowchk ld) (dA_rowchk_r s) (ldda_rowchk_r ld)
                (chk_v s) (ld_chk_v ld) DEBUG of
           (a, c, r, v) \<Rightarrow> s\<lparr>dA := a, dA_rowchk := c, dA_rowchk_r := r, chk_v := v\<rparr>))"

definition abft_dgemm_check_B ::
  "abft_checker \<Rightarrow> abft_checker \<Rightarrow> magma_trans_t \<Rightarrow> nat \<Rightarrow> nat \<Rightarrow> nat \<Rightarrow> nat \<Rightarrow>
   gemm_ld \<Rightarrow> bool \<Rightarrow> gemm_mem \<Rightarrow> gemm_mem" where
  "abft_dgemm_check_B abft_checker_colchk abft_checker_rowchk transB n k lddb nb ld DEBUG s =
     (if transB = MagmaNoTrans then
        (case abft_checker_rowchk (dB s) lddb k n nb
                (dB_rowchk s) (lddb_rowchk ld) (dB_rowchk_r s) (lddb_rowchk_r ld)
                (chk_v s) (ld_chk_v ld) DEBUG of
           (b, c, r, v) \<Rightarrow> s\<lparr>dB := b, dB_rowchk := c, dB_rowchk_r := r, chk_v := v\<rparr>)
      else
        (case abft_checker_colchk (dB s) lddb n k nb
                (dB_colchk s) (lddb_colchk ld) (dB_colchk_r s) (lddb_colchk_r ld)
                (chk_v s) (ld_chk_v ld) DEBUG of
           (b, c, r, v) \<Rightarrow> s\<lparr>dB := b, dB_colchk := c, dB_colchk_r := r, chk_v := v\<rparr>))"

text \<open>Lines 95--111 and again 231--247: the column and the row check of C.\<close>

definition abft_dgemm_check_C ::
  "abft_checker \<Rightarrow> abft_checker \<Rightarrow> nat \<Rightarrow> nat \<Rightarrow> nat \<Rightarrow> nat \<Rightarrow>
   gemm_ld \<Rightarrow> bool \<Rightarrow> gemm_mem \<Rightarrow> gemm_mem" where
  "abft_dgemm_check_C abft_checker_colchk abft_checker_rowchk m n lddc nb ld DEBUG s =
     (case abft_checker_colchk (dC s) lddc m n nb
             (dC_colchk s) (lddc_colchk ld) (dC_colchk_r s) (lddc_colchk_r ld)
             (chk_v s) (ld_chk_v ld) DEBUG of
        (c1, k1, r1, v1) \<Rightarrow>
          (case abft_checker_rowchk c1 lddc m n nb
                  (dC_rowchk s) (lddc_rowchk ld) (dC_rowchk_r s) (lddc_rowchk_r ld)
                  v1 (ld_chk_v ld) DEBUG of
             (c2, k2, r2, v2) \<Rightarrow>
               s\<lparr>dC := c2, dC_colchk := k1, dC_colchk_r := r1,
                 dC_rowchk := k2, dC_rowchk_r := r2, chk_v := v2\<rparr>))"

definition abft_dgemm_check_before ::
  "abft_checker \<Rightarrow> abft_checker \<Rightarrow> magma_trans_t \<Rightarrow> magma_trans_t \<Rightarrow> nat \<Rightarrow> nat \<Rightarrow> nat \<Rightarrow>
   nat \<Rightarrow> nat \<Rightarrow> nat \<Rightarrow> nat \<Rightarrow> gemm_ld \<Rightarrow> bool \<Rightarrow> gemm_mem \<Rightarrow> gemm_mem" where
  "abft_dgemm_check_before abft_checker_colchk abft_checker_rowchk transA transB m n k
       ldda lddb lddc nb ld DEBUG s =
     abft_dgemm_check_C abft_checker_colchk abft_checker_rowchk m n lddc nb ld DEBUG
       (abft_dgemm_check_B abft_checker_colchk abft_checker_rowchk transB n k lddb nb ld DEBUG
         (abft_dgemm_check_A abft_checker_colchk abft_checker_rowchk transA m k ldda nb ld DEBUG s))"

text \<open>
  Lines 185--226: the two small products on the checksums of C. The first takes the
  column checksum of A when A is not transposed and its row checksum otherwise; the
  second takes the row checksum of B when B is not transposed and its column checksum
  otherwise. Both read the data of A and B, never C.
\<close>

definition abft_dgemm_propagate ::
  "magma_trans_t \<Rightarrow> magma_trans_t \<Rightarrow> nat \<Rightarrow> nat \<Rightarrow> nat \<Rightarrow> real \<Rightarrow> nat \<Rightarrow> nat \<Rightarrow> real \<Rightarrow>
   nat \<Rightarrow> gemm_ld \<Rightarrow> gemm_mem \<Rightarrow> gemm_mem" where
  "abft_dgemm_propagate transA transB m n k alpha ldda lddb beta nb ld s =
     (let s1 =
        (if transA = MagmaNoTrans then
           s\<lparr>dC_colchk := magma_dgemm transA transB ((m div nb) * 2) n k alpha
                             (dA_colchk s) (ldda_colchk ld) (dB s) lddb beta
                             (dC_colchk s) (lddc_colchk ld)\<rparr>
         else
           s\<lparr>dC_colchk := magma_dgemm transA transB ((m div nb) * 2) n k alpha
                             (dA_rowchk s) (ldda_rowchk ld) (dB s) lddb beta
                             (dC_colchk s) (lddc_colchk ld)\<rparr>)
      in
        (if transB = MagmaNoTrans then
           s1\<lparr>dC_rowchk := magma_dgemm transA transB m ((n div nb) * 2) k alpha
                              (dA s1) ldda (dB_rowchk s1) (lddb_rowchk ld) beta
                              (dC_rowchk s1) (lddc_rowchk ld)\<rparr>
         else
           s1\<lparr>dC_rowchk := magma_dgemm transA transB m ((n div nb) * 2) k alpha
                              (dA s1) ldda (dB_colchk s1) (lddb_colchk ld) beta
                              (dC_rowchk s1) (lddc_rowchk ld)\<rparr>))"

text \<open>
  The whole routine, with none of the conditional-compilation blocks
  (\<^verbatim>\<open>RECORD_TIME_AND_ENERGY\<close>, \<^verbatim>\<open>GENERATE_GROUNDTRUTH\<close>, \<^verbatim>\<open>FAULT_ANALYSIS\<close>,
  \<^verbatim>\<open>VOID_PROPAGATION\<close>) compiled in and without the console output of \<open>DEBUG\<close>.
  With \<open>FT\<close> set, \<^verbatim>\<open>m / nb\<close> is evaluated after the main product has been issued:
  \<open>nb = 0\<close> is an integer division by zero there.
\<close>

definition abft_dgemm ::
  "abft_checker \<Rightarrow> abft_checker \<Rightarrow> magma_trans_t \<Rightarrow> magma_trans_t \<Rightarrow> nat \<Rightarrow> nat \<Rightarrow> nat \<Rightarrow>
   real \<Rightarrow> nat \<Rightarrow> nat \<Rightarrow> real \<Rightarrow> nat \<Rightarrow> nat \<Rightarrow> gemm_ld \<Rightarrow>
   bool \<Rightarrow> bool \<Rightarrow> bool \<Rightarrow> bool \<Rightarrow> gemm_mem \<Rightarrow> fault + gemm_mem" where
  "abft_dgemm abft_checker_colchk abft_checker_rowchk transA transB m n k
       alpha ldda lddb beta lddc nb ld FT DEBUG CHECK_BEFORE CHECK_AFTER s =
     (let s1 = (if FT \<and> CHECK_BEFORE
                then abft_dgemm_check_before abft_checker_colchk abft_checker_rowchk
                       transA transB m n k ldda lddb lddc nb ld DEBUG s
                else s);
          s2 = s1\<lparr>dC := magma_dgemm transA transB m n k alpha
                            (dA s1) ldda (dB s1) lddb beta (dC s1) lddc\<rparr>
      in if FT then
           (if nb = 0 then Inl IntDivByZero
            else
              (let s3 = abft_dgemm_propagate transA transB m n k alpha ldda lddb beta nb ld s2
               in Inr (if CHECK_AFTER
                       then abft_dgemm_check_C abft_checker_colchk abft_checker_rowchk
                              m n lddc nb ld DEBUG s3
                       else s3)))
         else Inr s2)"

text \<open>
  The buffers a checker must not change when there is nothing to correct: the data of
  A, B and C and their stored checksums.
\<close>

definition same_protected :: "gemm_mem \<Rightarrow> gemm_mem \<Rightarrow> bool" where
  "same_protected s s' =
     (dA s' = dA s \<and> dB s' = dB s \<and> dC s' = dC s \<and>
      dA_colchk s' = dA_colchk s \<and> dA_rowchk s' = dA_rowchk s \<and>
      dB_colchk s' = dB_colchk s \<and> dB_rowchk s' = dB_rowchk s \<and>
      dC_colchk s' = dC_colchk s \<and> dC_rowchk s' = dC_rowchk s)"

text \<open>
  Encode. A column checksum of an \<open>m\<close>-row matrix \<open>X\<close> is a weighted sum of its rows: row
  \<open>i\<close> of the checksum is \<open>\<Sum>t. W i t * X t j\<close>. A row checksum is a weighted sum of its
  columns, \<open>\<Sum>t. X i t * V t j\<close>. This is what the drivers compute with one product
  against the weight vectors (see \<open>recalculate_checksum\<close> below, where \<open>W\<close> is \<open>vd\<^sup>T\<close>);
  with \<open>nb\<close>-row blocks, rows \<open>2b\<close> and \<open>2b+1\<close> of \<open>W\<close> carry \<open>(1, \<dots>, 1)\<close> and \<open>(1, \<dots>, nb)\<close>
  on the rows of block \<open>b\<close> and zero elsewhere. The predicates say that \<open>chk\<close> holds the
  \<open>r\<close> checksum rows (columns) of the \<open>m\<close> by \<open>n\<close> matrix \<open>X\<close>.
\<close>

definition encodes_cols ::
  "(nat \<Rightarrow> nat \<Rightarrow> real) \<Rightarrow> nat \<Rightarrow> nat \<Rightarrow> nat \<Rightarrow> (nat \<Rightarrow> nat \<Rightarrow> real) \<Rightarrow> (nat \<Rightarrow> nat \<Rightarrow> real) \<Rightarrow> bool" where
  "encodes_cols W r m n chk X = (\<forall>i<r. \<forall>j<n. chk i j = (\<Sum>t<m. W i t * X t j))"

definition encodes_rows ::
  "(nat \<Rightarrow> nat \<Rightarrow> real) \<Rightarrow> nat \<Rightarrow> nat \<Rightarrow> nat \<Rightarrow> (nat \<Rightarrow> nat \<Rightarrow> real) \<Rightarrow> (nat \<Rightarrow> nat \<Rightarrow> real) \<Rightarrow> bool" where
  "encodes_rows V r m n chk X = (\<forall>i<m. \<forall>j<r. chk i j = (\<Sum>t<n. X i t * V t j))"

section \<open>dsyrkFT (magma-1.6.2-enhanced/magmablas/dsyrkFT.cpp)\<close>

record syrk_mem =
  syrk_A :: buf
  syrk_C :: buf
  syrk_checksumA :: buf
  syrk_checksumC :: buf
  syrk_vd :: buf
  syrk_chk1 :: buf
  syrk_chk2 :: buf

text \<open>
  \<open>A\<close> has \<open>n\<close> rows and \<open>m\<close> columns. With \<open>FT\<close> and \<open>VERIFY\<close> the two checksums of
  \<open>A\<close> are recomputed into \<open>chk1\<close> and \<open>chk2\<close> (the error handling that would follow is
  commented out in the source). The update of \<open>C\<close> is a general product with the
  scalars \<open>MAGMA_D_ONE * (-1)\<close> and \<open>MAGMA_D_ONE\<close>, issued whether \<open>FT\<close> is set or not;
  with \<open>FT\<close> the same product is applied to the checksum of \<open>A\<close>.
\<close>

definition dsyrkFT ::
  "magma_uplo_t \<Rightarrow> magma_trans_t \<Rightarrow> nat \<Rightarrow> nat \<Rightarrow> real \<Rightarrow> nat \<Rightarrow> real \<Rightarrow> nat \<Rightarrow>
   nat \<Rightarrow> nat \<Rightarrow> nat \<Rightarrow> nat \<Rightarrow> nat \<Rightarrow> bool \<Rightarrow> bool \<Rightarrow> bool \<Rightarrow> syrk_mem \<Rightarrow> syrk_mem" where
  "dsyrkFT uplo trans_op n m alpha lda beta ldc checksumA_ld checksumC_ld vd_ld chk1_ld chk2_ld
       FT DEBUG VERIFY s =
     (let s1 =
        (if FT \<and> VERIFY then
           s\<lparr>syrk_chk1 := magma_dgemv MagmaTrans n m 1 (syrk_A s) lda (syrk_vd s) vd_ld
                             0 (syrk_chk1 s) chk1_ld,
             syrk_chk2 := magma_dgemv MagmaTrans n m 1 (syrk_A s) lda (shift (syrk_vd s) 1) vd_ld
                             0 (syrk_chk2 s) chk2_ld\<rparr>
         else s);
          s2 = s1\<lparr>syrk_C := magma_dgemm MagmaNoTrans MagmaTrans n n m (1 * (- 1))
                               (syrk_A s1) lda (syrk_A s1) lda 1 (syrk_C s1) ldc\<rparr>
      in if FT then
           s2\<lparr>syrk_checksumC := magma_dgemm MagmaNoTrans MagmaTrans 2 n m (1 * (- 1))
                                   (syrk_checksumA s2) checksumA_ld (syrk_A s2) lda 1
                                   (syrk_checksumC s2) checksumC_ld\<rparr>
         else s2)"

text \<open>
  The unprotected call, which the source keeps in a comment as the branch for a
  disabled \<open>FT\<close> (lines 78--82): the symmetric rank-k update with the caller's \<open>uplo\<close>,
  \<open>trans\<close>, \<open>alpha\<close> and \<open>beta\<close>.
\<close>

definition dsyrk_unprotected ::
  "magma_uplo_t \<Rightarrow> magma_trans_t \<Rightarrow> nat \<Rightarrow> nat \<Rightarrow> real \<Rightarrow> nat \<Rightarrow> real \<Rightarrow> nat \<Rightarrow>
   syrk_mem \<Rightarrow> syrk_mem" where
  "dsyrk_unprotected uplo trans_op n m alpha lda beta ldc s =
     s\<lparr>syrk_C := magma_dsyrk uplo trans_op n m alpha (syrk_A s) lda beta (syrk_C s) ldc\<rparr>"

section \<open>detectAndCorrectForSyrk and the checksum recomputation (old\_source\_code/v2/dsyrkFT.h)\<close>

text \<open>
  \<^verbatim>\<open>round\<close> of the C library rounds halfway cases away from zero. A division by zero
  yields an infinity or a NaN, which is no real number: \<open>fdiv\<close> returns \<open>None\<close> for it,
  and converting such a value to \<^verbatim>\<open>int\<close> is undefined. (A finite quotient beyond the
  range of \<^verbatim>\<open>int\<close> is not modelled: \<open>row\<close> is an unbounded integer.)
  The literal \<^verbatim>\<open>0.1\<close> of the guard is the double nearest to one tenth,
  \<open>3602879701896397 / 2\<^sup>5\<^sup>5\<close>, which lies slightly above \<open>1/10\<close>.
\<close>

definition tolerance :: real where
  "tolerance = 3602879701896397 / 36028797018963968"

definition c_round :: "real \<Rightarrow> int" where
  "c_round x = (if 0 \<le> x then \<lfloor>x + 1 / 2\<rfloor> else \<lceil>x - 1 / 2\<rceil>)"

definition fdiv :: "real \<Rightarrow> real \<Rightarrow> real option" where
  "fdiv x y = (if y = 0 then None else Some (x / y))"

text \<open>
  One thread of the kernel; \<open>col\<close> is \<^verbatim>\<open>threadIdx.x\<close>. \<open>chksumC1\<close>, \<open>chksumC2\<close> are the
  stored (propagated) checksums and \<open>chkC1\<close>, \<open>chkC2\<close> the recomputed ones. The write goes
  to \<^verbatim>\<open>C + row + col*ldc\<close>; a negative offset is a write in front of the buffer.
\<close>

definition detectAndCorrectForSyrk ::
  "nat \<Rightarrow> buf \<Rightarrow> nat \<Rightarrow> buf \<Rightarrow> nat \<Rightarrow> buf \<Rightarrow> nat \<Rightarrow> buf \<Rightarrow> nat \<Rightarrow> buf \<Rightarrow> nat \<Rightarrow> fault + buf" where
  "detectAndCorrectForSyrk col C ldc chksumC1 incC1 chksumC2 incC2 chkC1 incC1_2 chkC2 incC2_2 =
     (let diff = \<bar>chkC1 (col * incC1_2) - chksumC1 (col * incC1)\<bar> in
      if diff > tolerance then
        (let diff2 = \<bar>chkC2 (col * incC2_2) - chksumC2 (col * incC2)\<bar> in
         case fdiv diff2 diff of
           None \<Rightarrow> Inl NonFinite
         | Some q \<Rightarrow>
             (let row = c_round q - 1;
                  addr = row + int (col * ldc)
              in if addr < 0 then Inl WriteBeforeBuffer
                 else Inr (C(nat addr := C (nat addr)
                              + (chksumC1 (col * incC1) - chkC1 (col * incC1_2))))))
      else Inr C)"

text \<open>
  The threads of a block, run one after the other in the order given; a fault of one
  thread ends the run. The launch the source prepares is one block of \<open>n\<close> threads,
  \<^verbatim>\<open><<<dim3(1),dim3(n)>>>\<close>.
\<close>

fun detectAndCorrectForSyrk_threads ::
  "nat list \<Rightarrow> buf \<Rightarrow> nat \<Rightarrow> buf \<Rightarrow> nat \<Rightarrow> buf \<Rightarrow> nat \<Rightarrow> buf \<Rightarrow> nat \<Rightarrow> buf \<Rightarrow> nat \<Rightarrow> fault + buf" where
  "detectAndCorrectForSyrk_threads [] C ldc chksumC1 incC1 chksumC2 incC2 chkC1 incC1_2 chkC2 incC2_2 =
     Inr C"
| "detectAndCorrectForSyrk_threads (col # cols) C ldc chksumC1 incC1 chksumC2 incC2
       chkC1 incC1_2 chkC2 incC2_2 =
     (case detectAndCorrectForSyrk col C ldc chksumC1 incC1 chksumC2 incC2
             chkC1 incC1_2 chkC2 incC2_2 of
        Inl e \<Rightarrow> Inl e
      | Inr C' \<Rightarrow> detectAndCorrectForSyrk_threads cols C' ldc chksumC1 incC1 chksumC2 incC2
                    chkC1 incC1_2 chkC2 incC2_2)"

definition detectAndCorrectForSyrk_launch ::
  "nat \<Rightarrow> buf \<Rightarrow> nat \<Rightarrow> buf \<Rightarrow> nat \<Rightarrow> buf \<Rightarrow> nat \<Rightarrow> buf \<Rightarrow> nat \<Rightarrow> buf \<Rightarrow> nat \<Rightarrow> fault + buf" where
  "detectAndCorrectForSyrk_launch n C ldc chksumC1 incC1 chksumC2 incC2 chkC1 incC1_2 chkC2 incC2_2 =
     detectAndCorrectForSyrk_threads [0..<n] C ldc chksumC1 incC1 chksumC2 incC2
       chkC1 incC1_2 chkC2 incC2_2"

text \<open>
  Line 51 of dsyrkFT in the same file recomputes both checksums of the \<open>n\<close> by \<open>n\<close>
  matrix \<open>C\<close> at once: \<open>chk = vd\<^sup>T C\<close>, a \<open>2\<close> by \<open>n\<close> matrix, where the two columns of
  \<open>vd\<close> are the weight vectors. (\<^verbatim>\<open>cublasDgemm\<close> is the routine \<^verbatim>\<open>magma_dgemm\<close> wraps.)
\<close>

definition recalculate_checksum ::
  "nat \<Rightarrow> buf \<Rightarrow> nat \<Rightarrow> buf \<Rightarrow> nat \<Rightarrow> buf \<Rightarrow> nat \<Rightarrow> buf" where
  "recalculate_checksum n vd vd_ld C ldc chk chk_ld =
     magma_dgemm MagmaTrans MagmaNoTrans 2 n n 1 vd vd_ld C ldc 0 chk chk_ld"

text \<open>
  What one thread decides and computes: the test of line 11, the row of line 13, and
  the matrix after every thread \<open>col < n\<close> has applied its patch of line 14.
\<close>

definition flagged :: "buf \<Rightarrow> nat \<Rightarrow> buf \<Rightarrow> nat \<Rightarrow> nat \<Rightarrow> bool" where
  "flagged chksumC1 incC1 chkC1 incC1_2 col =
     (tolerance < \<bar>chkC1 (col * incC1_2) - chksumC1 (col * incC1)\<bar>)"

definition located_row ::
  "buf \<Rightarrow> nat \<Rightarrow> buf \<Rightarrow> nat \<Rightarrow> buf \<Rightarrow> nat \<Rightarrow> buf \<Rightarrow> nat \<Rightarrow> nat \<Rightarrow> int" where
  "located_row chksumC1 incC1 chksumC2 incC2 chkC1 incC1_2 chkC2 incC2_2 col =
     c_round (\<bar>chkC2 (col * incC2_2) - chksumC2 (col * incC2)\<bar>
              / \<bar>chkC1 (col * incC1_2) - chksumC1 (col * incC1)\<bar>) - 1"

definition patched ::
  "nat \<Rightarrow> buf \<Rightarrow> nat \<Rightarrow> buf \<Rightarrow> nat \<Rightarrow> buf \<Rightarrow> nat \<Rightarrow> buf \<Rightarrow> nat \<Rightarrow> buf \<Rightarrow> nat \<Rightarrow> buf" where
  "patched n C ldc chksumC1 incC1 chksumC2 incC2 chkC1 incC1_2 chkC2 incC2_2 =
     (\<lambda>p. if p div ldc < n \<and> flagged chksumC1 incC1 chkC1 incC1_2 (p div ldc) \<and>
              int (p mod ldc) =
                located_row chksumC1 incC1 chksumC2 incC2 chkC1 incC1_2 chkC2 incC2_2 (p div ldc)
           then C p + (chksumC1 (p div ldc * incC1) - chkC1 (p div ldc * incC1_2))
           else C p)"

section \<open>dtrsmFT (old\_source\_code/magma-1.6.2-enhanced-fermi/magmablas/dtrsmFT.cpp)\<close>





section \<open>dpotrfFT (magma-1.6.2-online/magmablas/dpotrfFT.cpp)\<close>

text \<open>
  \<open>get\<close> reads entry \<open>(i, j)\<close> of a matrix with leading dimension \<open>ld\<close> (its range test
  only prints a message).
\<close>

definition get :: "buf \<Rightarrow> nat \<Rightarrow> nat \<Rightarrow> nat \<Rightarrow> nat \<Rightarrow> real" where
  "get matrix ld n i j = matrix (j * ld + i)"

text \<open>
  Lines 64--72 and 74--82: the two loops over the columns, the first on row \<open>0\<close> of the
  checksum (\<open>w = 0\<close>), the second on row \<open>1\<close> (\<open>w = 1\<close>); \<open>i\<close> is the loop counter. Entry
  \<open>i\<close> is divided by \<^verbatim>\<open>get(A, n, n, i, i)\<close>, then \<^verbatim>\<open>daxpy\<close> subtracts its multiples of
  the \<open>n - i - 1\<close> numbers at \<^verbatim>\<open>A + i*lda + i+1\<close> from the entries that follow.
\<close>

function dpotrfFT_update :: "nat \<Rightarrow> nat \<Rightarrow> buf \<Rightarrow> nat \<Rightarrow> nat \<Rightarrow> buf \<Rightarrow> nat \<Rightarrow> fault + buf" where
  "dpotrfFT_update w i A lda n chksum chksum_ld =
     (if i < n then
        (case fdiv (chksum (i * chksum_ld + w)) (get A n n i i) of
           None \<Rightarrow> Inl NonFinite
         | Some q \<Rightarrow>
             (let chksum1 = chksum(i * chksum_ld + w := q);
                  m = n - i - 1;
                  alpha = - 1 * chksum1 (i * chksum_ld + w)
              in dpotrfFT_update w (Suc i) A lda n
                   (at_offset (w + (i + 1) * chksum_ld)
                      (\<lambda>y. blasf77_daxpy m alpha (shift A (i * lda + i + 1)) 1 y chksum_ld)
                      chksum1)
                   chksum_ld))
      else Inr chksum)"
  by pat_completeness auto
termination
  by (relation "measure (\<lambda>(w, i, A, lda, n, chksum, chksum_ld). n - i)") auto

declare dpotrfFT_update.simps [simp del]

text \<open>
  \<^verbatim>\<open>lapackf77_dpotrf\<close> (LAPACK) and \<^verbatim>\<open>ErrorDetectAndCorrectHost\<close> (declared in FT.h)
  are defined outside this file; they are parameters. The factorization receives \<open>uplo\<close>, \<open>n\<close>, the matrix and
  the leading dimension (the source passes \<open>n\<close> for it, not \<open>lda\<close>) and returns the
  matrix and \<open>info\<close>. The corrector receives its eleven arguments and returns the matrix
  and the checksum.
\<close>

type_synonym lapack_dpotrf = "magma_uplo_t \<Rightarrow> nat \<Rightarrow> buf \<Rightarrow> nat \<Rightarrow> buf \<times> int"

type_synonym host_corrector =
  "buf \<Rightarrow> nat \<Rightarrow> nat \<Rightarrow> nat \<Rightarrow> nat \<Rightarrow> buf \<Rightarrow> nat \<Rightarrow> buf \<Rightarrow> nat \<Rightarrow> buf \<Rightarrow> nat \<Rightarrow> buf \<times> buf"

record potrf_mem =
  potrf_A :: buf
  potrf_info :: int
  potrf_chksum :: buf
  potrf_v :: buf

text \<open>
  The whole routine: factorize, and with \<open>FT\<close> recompute the checksums of the factor
  (\<open>chk1\<close>, \<open>chk2\<close>, from fresh weight vectors), update the stored checksum row \<open>0\<close>,
  then row \<open>1\<close>, and hand everything to the corrector. \<open>v\<close> and \<open>v_ld\<close> are not used.
\<close>

definition dpotrfFT ::
  "lapack_dpotrf \<Rightarrow> host_corrector \<Rightarrow> nat \<Rightarrow> nat \<Rightarrow> nat \<Rightarrow> nat \<Rightarrow> bool \<Rightarrow> bool \<Rightarrow>
   potrf_mem \<Rightarrow> fault + potrf_mem" where
  "dpotrfFT lapackf77_dpotrf ErrorDetectAndCorrectHost lda n chksum_ld v_ld FT DEBUG s =
     (case lapackf77_dpotrf MagmaLower n (potrf_A s) n of
        (A1, info) \<Rightarrow>
          (let s1 = s\<lparr>potrf_A := A1, potrf_info := info\<rparr> in
           if FT then
             (let chk1 = blasf77_dtrmv_lower_trans_nonunit n A1 lda (\<lambda>i. 1) 1;
                  chk2 = blasf77_dtrmv_lower_trans_nonunit n A1 lda (\<lambda>i. real (i + 1)) 1
              in case dpotrfFT_update 0 0 A1 lda n (potrf_chksum s1) chksum_ld of
                   Inl e \<Rightarrow> Inl e
                 | Inr c1 \<Rightarrow>
                     (case dpotrfFT_update 1 0 A1 lda n c1 chksum_ld of
                        Inl e \<Rightarrow> Inl e
                      | Inr c2 \<Rightarrow>
                          (case ErrorDetectAndCorrectHost A1 lda n n n c2 chksum_ld
                                  chk1 1 chk2 1 of
                             (A2, c3) \<Rightarrow> Inr (s1\<lparr>potrf_A := A2, potrf_chksum := c3\<rparr>))))
           else Inr s1))"

text \<open>
  The recurrence in the words of the specification, on a vector \<open>chk\<close> and a factor
  \<open>L\<close> given entry by entry: for \<open>k = 0, \<dots>, n - 1\<close> in turn, \<open>chk[k] = chk[k] / L[k,k]\<close>
  and then \<open>chk[k+1:] -= chk[k] * L[k+1:,k]\<close>.
\<close>

definition recurrence_step :: "(nat \<Rightarrow> nat \<Rightarrow> real) \<Rightarrow> nat \<Rightarrow> nat \<Rightarrow> (nat \<Rightarrow> real) \<Rightarrow> nat \<Rightarrow> real" where
  "recurrence_step L n k chk =
     (\<lambda>j. if j = k then chk k / L k k
          else if k < j \<and> j < n then chk j - (chk k / L k k) * L j k
          else chk j)"

definition checksum_recurrence :: "(nat \<Rightarrow> nat \<Rightarrow> real) \<Rightarrow> nat \<Rightarrow> (nat \<Rightarrow> real) \<Rightarrow> nat \<Rightarrow> real" where
  "checksum_recurrence L n chk = fold (recurrence_step L n) [0..<n] chk"

section \<open>Example data\<close>

text \<open>
  The weight vectors as the drivers set them up, column \<open>0\<close> all ones and column \<open>1\<close>
  counting \<open>1, 2, \<dots>\<close> (dpotrfFT fills \<^verbatim>\<open>chk1[i] = 1; chk2[i] = i + 1\<close>), stored with
  leading dimension \<open>vd_ld\<close>; the \<open>4\<close> by \<open>4\<close> identity; a checker that returns what it
  was given; and small buffers for the products.
\<close>

definition weight_vectors :: "nat \<Rightarrow> buf" where
  "weight_vectors vd_ld = (\<lambda>p. if p < vd_ld then 1 else real (p - vd_ld + 1))"


definition no_fault_checker :: abft_checker where
  "no_fault_checker d l r c b ch lch chr lchr v lv dbg = (d, ch, chr, v)"

definition example_mem :: gemm_mem where
  "example_mem =
     \<lparr>dA = (\<lambda>_. 1), dB = (\<lambda>_. 1), dC = (\<lambda>_. 0),
      dA_colchk = (\<lambda>p. if p mod 2 = 0 then 2 else 3), dA_rowchk = (\<lambda>_. 0),
      dA_colchk_r = (\<lambda>_. 0), dA_rowchk_r = (\<lambda>_. 0),
      dB_colchk = (\<lambda>_. 0), dB_rowchk = (\<lambda>p. if p div 2 = 0 then 2 else 3),
      dB_colchk_r = (\<lambda>_. 0), dB_rowchk_r = (\<lambda>_. 0),
      dC_colchk = (\<lambda>_. 0), dC_rowchk = (\<lambda>_. 0),
      dC_colchk_r = (\<lambda>_. 0), dC_rowchk_r = (\<lambda>_. 0),
      chk_v = weight_vectors 2\<rparr>"

definition example_ld :: "nat \<Rightarrow> gemm_ld" where
  "example_ld c =
     \<lparr>ldda_colchk = 2, ldda_rowchk = 2, ldda_colchk_r = 2, ldda_rowchk_r = 2,
      lddb_colchk = 2, lddb_rowchk = 2, lddb_colchk_r = 2, lddb_rowchk_r = 2,
      lddc_colchk = c, lddc_rowchk = 2, lddc_colchk_r = 2, lddc_rowchk_r = 2,
      ld_chk_v = 2\<rparr>"

definition example_W :: "nat \<Rightarrow> nat \<Rightarrow> real" where
  "example_W i t = (if i = 0 then 1 else real (t + 1))"

definition example_V :: "nat \<Rightarrow> nat \<Rightarrow> real" where
  "example_V t j = (if j = 0 then 1 else real (t + 1))"

definition example_syrk :: syrk_mem where
  "example_syrk =
     \<lparr>syrk_A = (\<lambda>_. 1), syrk_C = (\<lambda>_. 0), syrk_checksumA = (\<lambda>_. 0),
      syrk_checksumC = (\<lambda>_. 0), syrk_vd = (\<lambda>_. 0), syrk_chk1 = (\<lambda>_. 0), syrk_chk2 = (\<lambda>_. 0)\<rparr>"

text \<open>
  A second input of dsyrkFT: \<open>A\<close> is the \<open>2\<close> by \<open>2\<close> matrix with columns \<open>(1, 2)\<close> and
  \<open>(3, 4)\<close>, and \<open>C\<close> holds \<open>100\<close> everywhere.
\<close>

definition example_syrk2 :: syrk_mem where
  "example_syrk2 =
     \<lparr>syrk_A = (\<lambda>p. real (p + 1)), syrk_C = (\<lambda>_. 100), syrk_checksumA = (\<lambda>_. 0),
      syrk_checksumC = (\<lambda>_. 0), syrk_vd = weight_vectors 2, syrk_chk1 = (\<lambda>_. 0),
      syrk_chk2 = (\<lambda>_. 0)\<rparr>"


section \<open>Properties\<close>

subsection \<open>The BLAS calls entry by entry\<close>

lemma dgemm_entry:
  assumes "dgemm_args_ok transA transB m n k ldda lddb lddc" "i < m" "j < n"
  shows "magma_dgemm transA transB m n k alpha A ldda B lddb beta C lddc (i + j * lddc) =
           alpha * (\<Sum>l<k. op_elem transA A ldda i l * op_elem transB B lddb l j)
           + beta * C (i + j * lddc)"
proof -
  from assms have "i < lddc" by (simp add: dgemm_args_ok_def)
  then have "(i + j * lddc) mod lddc = i" "(i + j * lddc) div lddc = j" by simp_all
  with assms show ?thesis by (simp add: magma_dgemm_def)
qed

lemma dgemm_elem:
  assumes "dgemm_args_ok transA transB m n k ldda lddb lddc" "i < m" "j < n"
  shows "elem (magma_dgemm transA transB m n k alpha A ldda B lddb beta C lddc) lddc i j =
           alpha * (\<Sum>l<k. op_elem transA A ldda i l * op_elem transB B lddb l j)
           + beta * elem C lddc i j"
  unfolding elem_def using dgemm_entry[OF assms] by (simp add: elem_def)


lemma dsyrk_triangle:
  "magma_dsyrk uplo MagmaNoTrans n m (- 1) A lda 1 C ldc p =
     (if (if uplo = MagmaLower then p div ldc \<le> p mod ldc else p mod ldc \<le> p div ldc)
      then magma_dgemm MagmaNoTrans MagmaTrans n n m (- 1) A lda A lda 1 C ldc p
      else C p)"
  by (auto simp: magma_dsyrk_def magma_dgemm_def dgemm_args_ok_def op_elem_def)

lemma sum_lessThan_numeral:
  "(\<Sum>i<numeral k. f i) = (\<Sum>i<pred_numeral k. f i) + f (pred_numeral k :: nat)"
  by (simp add: numeral_eq_Suc)

lemmas eval_blas = recalculate_checksum_def magma_dgemm_def dgemm_args_ok_def op_elem_def elem_def
       weight_vectors_def sum_lessThan_numeral

lemma lin_left:
  "alpha * (\<Sum>l<k. (\<Sum>t<m. w t * a t l) * b l) + beta * (\<Sum>t<m. w t * c t) =
   (\<Sum>t<m. w t * (alpha * (\<Sum>l<k. a t l * b l) + beta * c t))" for alpha beta :: real
proof -
  have "(\<Sum>l<k. (\<Sum>t<m. w t * a t l) * b l) = (\<Sum>l<k. \<Sum>t<m. w t * (a t l * b l))"
    by (simp add: sum_distrib_right mult.assoc)
  also have "\<dots> = (\<Sum>t<m. \<Sum>l<k. w t * (a t l * b l))" by (rule sum.swap)
  also have "\<dots> = (\<Sum>t<m. w t * (\<Sum>l<k. a t l * b l))" by (simp add: sum_distrib_left)
  finally show ?thesis
    by (simp add: sum_distrib_left distrib_left sum.distrib mult.left_commute)
qed

lemma lin_right:
  "alpha * (\<Sum>l<k. a l * (\<Sum>t<n. b l t * v t)) + beta * (\<Sum>t<n. c t * v t) =
   (\<Sum>t<n. (alpha * (\<Sum>l<k. a l * b l t) + beta * c t) * v t)" for alpha beta :: real
proof -
  have "(\<Sum>l<k. a l * (\<Sum>t<n. b l t * v t)) = (\<Sum>l<k. \<Sum>t<n. (a l * b l t) * v t)"
    by (simp add: sum_distrib_left mult.assoc)
  also have "\<dots> = (\<Sum>t<n. \<Sum>l<k. (a l * b l t) * v t)" by (rule sum.swap)
  also have "\<dots> = (\<Sum>t<n. (\<Sum>l<k. a l * b l t) * v t)" by (simp add: sum_distrib_right)
  finally have eq: "(\<Sum>l<k. a l * (\<Sum>t<n. b l t * v t)) = (\<Sum>t<n. (\<Sum>l<k. a l * b l t) * v t)" .
  have "(\<Sum>t<n. (alpha * (\<Sum>l<k. a l * b l t) + beta * c t) * v t) =
        (\<Sum>t<n. alpha * ((\<Sum>l<k. a l * b l t) * v t) + beta * (c t * v t))"
    by (simp add: distrib_right mult.assoc)
  also have "\<dots> = alpha * (\<Sum>t<n. (\<Sum>l<k. a l * b l t) * v t) + beta * (\<Sum>t<n. c t * v t)"
    by (simp only: sum.distrib sum_distrib_left)
  finally show ?thesis using eq by simp
qed

subsection \<open>Checkers that find nothing\<close>

lemma checker_keeps_result:
  assumes "checker_keeps f"
  obtains r v where "f d l mr mc b ch lch chr lchr v0 lv dbg = (d, ch, r, v)"
proof -
  obtain a c r v where eq: "f d l mr mc b ch lch chr lchr v0 lv dbg = (a, c, r, v)"
    by (metis prod_cases4)
  from assms have "fst (f d l mr mc b ch lch chr lchr v0 lv dbg) = d"
              and "fst (snd (f d l mr mc b ch lch chr lchr v0 lv dbg)) = ch"
    unfolding checker_keeps_def by blast+
  with eq have "a = d" "c = ch" by simp_all
  with eq that show thesis by blast
qed

lemma same_protected_refl: "same_protected s s"
  by (simp add: same_protected_def)

lemma same_protected_trans: "same_protected s t \<Longrightarrow> same_protected t u \<Longrightarrow> same_protected s u"
  by (simp add: same_protected_def)

lemma check_A_keeps:
  assumes "checker_keeps cc" "checker_keeps rc"
  shows "same_protected s (abft_dgemm_check_A cc rc transA m k ldda nb ld DEBUG s)"
proof (cases "transA = MagmaNoTrans")
  case True
  obtain r v where "cc (dA s) ldda m k nb
                (dA_colchk s) (ldda_colchk ld) (dA_colchk_r s) (ldda_colchk_r ld)
                (chk_v s) (ld_chk_v ld) DEBUG = (dA s, dA_colchk s, r, v)"
    using checker_keeps_result[OF assms(1)] by metis
  with True show ?thesis by (simp add: abft_dgemm_check_A_def same_protected_def)
next
  case False
  obtain r v where "rc (dA s) ldda k m nb
                (dA_rowchk s) (ldda_rowchk ld) (dA_rowchk_r s) (ldda_rowchk_r ld)
                (chk_v s) (ld_chk_v ld) DEBUG = (dA s, dA_rowchk s, r, v)"
    using checker_keeps_result[OF assms(2)] by metis
  with False show ?thesis by (simp add: abft_dgemm_check_A_def same_protected_def)
qed

lemma check_B_keeps:
  assumes "checker_keeps cc" "checker_keeps rc"
  shows "same_protected s (abft_dgemm_check_B cc rc transB n k lddb nb ld DEBUG s)"
proof (cases "transB = MagmaNoTrans")
  case True
  obtain r v where "rc (dB s) lddb k n nb
                (dB_rowchk s) (lddb_rowchk ld) (dB_rowchk_r s) (lddb_rowchk_r ld)
                (chk_v s) (ld_chk_v ld) DEBUG = (dB s, dB_rowchk s, r, v)"
    using checker_keeps_result[OF assms(2)] by metis
  with True show ?thesis by (simp add: abft_dgemm_check_B_def same_protected_def)
next
  case False
  obtain r v where "cc (dB s) lddb n k nb
                (dB_colchk s) (lddb_colchk ld) (dB_colchk_r s) (lddb_colchk_r ld)
                (chk_v s) (ld_chk_v ld) DEBUG = (dB s, dB_colchk s, r, v)"
    using checker_keeps_result[OF assms(1)] by metis
  with False show ?thesis by (simp add: abft_dgemm_check_B_def same_protected_def)
qed

lemma check_C_keeps:
  assumes "checker_keeps cc" "checker_keeps rc"
  shows "same_protected s (abft_dgemm_check_C cc rc m n lddc nb ld DEBUG s)"
proof -
  obtain r1 v1 where 1: "cc (dC s) lddc m n nb
             (dC_colchk s) (lddc_colchk ld) (dC_colchk_r s) (lddc_colchk_r ld)
             (chk_v s) (ld_chk_v ld) DEBUG = (dC s, dC_colchk s, r1, v1)"
    using checker_keeps_result[OF assms(1)] by metis
  obtain r2 v2 where 2: "rc (dC s) lddc m n nb
                  (dC_rowchk s) (lddc_rowchk ld) (dC_rowchk_r s) (lddc_rowchk_r ld)
                  v1 (ld_chk_v ld) DEBUG = (dC s, dC_rowchk s, r2, v2)"
    using checker_keeps_result[OF assms(2)] by metis
  show ?thesis using 1 2 by (simp add: abft_dgemm_check_C_def same_protected_def)
qed

lemma check_before_keeps:
  assumes "checker_keeps cc" "checker_keeps rc"
  shows "same_protected s
           (abft_dgemm_check_before cc rc transA transB m n k ldda lddb lddc nb ld DEBUG s)"
  unfolding abft_dgemm_check_before_def
  by (blast intro: same_protected_trans check_A_keeps[OF assms] check_B_keeps[OF assms]
                   check_C_keeps[OF assms])

lemma propagate_effect:
  "abft_dgemm_propagate transA transB m n k alpha ldda lddb beta nb ld s =
     s\<lparr>dC_colchk := magma_dgemm transA transB ((m div nb) * 2) n k alpha
                       (if transA = MagmaNoTrans then dA_colchk s else dA_rowchk s)
                       (if transA = MagmaNoTrans then ldda_colchk ld else ldda_rowchk ld)
                       (dB s) lddb beta (dC_colchk s) (lddc_colchk ld),
       dC_rowchk := magma_dgemm transA transB m ((n div nb) * 2) k alpha (dA s) ldda
                       (if transB = MagmaNoTrans then dB_rowchk s else dB_colchk s)
                       (if transB = MagmaNoTrans then lddb_rowchk ld else lddb_colchk ld)
                       beta (dC_rowchk s) (lddc_rowchk ld)\<rparr>"
  by (simp add: abft_dgemm_propagate_def Let_def)

lemma no_fault_checker_keeps: "checker_keeps no_fault_checker"
  by (simp add: checker_keeps_def no_fault_checker_def)

subsection \<open>The threads of detectAndCorrectForSyrk\<close>

lemma threads_append:
  "detectAndCorrectForSyrk_threads (xs @ ys) C ldc s1 i1 s2 i2 k1 j1 k2 j2 =
     (case detectAndCorrectForSyrk_threads xs C ldc s1 i1 s2 i2 k1 j1 k2 j2 of
        Inl e \<Rightarrow> Inl e
      | Inr C' \<Rightarrow> detectAndCorrectForSyrk_threads ys C' ldc s1 i1 s2 i2 k1 j1 k2 j2)"
  by (induction xs arbitrary: C) (auto split: sum.splits)

lemma thread_below_tolerance:
  "\<bar>k1 (col * j1) - s1 (col * i1)\<bar> \<le> tolerance \<Longrightarrow>
   detectAndCorrectForSyrk col C ldc s1 i1 s2 i2 k1 j1 k2 j2 = Inr C"
  by (simp add: detectAndCorrectForSyrk_def)



lemma thread_flagged:
  assumes f: "flagged s1 i1 k1 j1 col"
      and lo: "0 \<le> located_row s1 i1 s2 i2 k1 j1 k2 j2 col"
  shows "detectAndCorrectForSyrk col C ldc s1 i1 s2 i2 k1 j1 k2 j2 =
           Inr (C(nat (located_row s1 i1 s2 i2 k1 j1 k2 j2 col) + col * ldc :=
                  C (nat (located_row s1 i1 s2 i2 k1 j1 k2 j2 col) + col * ldc)
                  + (s1 (col * i1) - k1 (col * j1))))"
proof -
  let ?row = "located_row s1 i1 s2 i2 k1 j1 k2 j2 col"
  have nz: "\<bar>k1 (col * j1) - s1 (col * i1)\<bar> \<noteq> 0" using f by (auto simp: flagged_def tolerance_def)
  have a: "nat (?row + int (col * ldc)) = nat ?row + col * ldc"
    using lo by (metis nat_add_distrib nat_int of_nat_0_le_iff)
  have b: "\<not> ?row + int (col * ldc) < 0" using lo by linarith
  show ?thesis
    using f nz a b
    by (simp add: detectAndCorrectForSyrk_def fdiv_def Let_def flagged_def located_row_def
             del: of_nat_mult)
qed

subsection \<open>The triangular solve is linear in the rows\<close>




subsection \<open>Forward substitution\<close>





subsection \<open>The loops of dpotrfFT\<close>

lemma daxpy_apply:
  assumes "0 < incy"
  shows "blasf77_daxpy n alpha x incx y incy p =
           (if p mod incy = 0 \<and> p div incy < n then y p + alpha * x (p div incy * incx) else y p)"
proof (induction n arbitrary: p)
  case 0
  show ?case by (simp add: blasf77_daxpy_def)
next
  case (Suc n)
  have step: "blasf77_daxpy (Suc n) alpha x incx y incy =
        (blasf77_daxpy n alpha x incx y incy)
          (n * incy := blasf77_daxpy n alpha x incx y incy (n * incy) + alpha * x (n * incx))"
    by (simp add: blasf77_daxpy_def)
  have old: "blasf77_daxpy n alpha x incx y incy (n * incy) = y (n * incy)"
    using assms by (simp add: Suc.IH)
  show ?case
  proof (cases "p = n * incy")
    case True
    then show ?thesis using assms by (simp add: step old)
  next
    case False
    then have "\<not> (p mod incy = 0 \<and> p div incy = n)" by (metis div_mult_mod_eq add.right_neutral)
    with False show ?thesis by (auto simp: step Suc.IH less_Suc_eq)
  qed
qed

lemma update_iteration:
  assumes ld: "w < ld"
  shows "at_offset (w + (i + 1) * ld)
           (\<lambda>y. blasf77_daxpy (n - i - 1) (- 1 * q) (shift A (i * lda + i + 1)) 1 y ld)
           (chksum(i * ld + w := q)) p =
         (if p mod ld = w \<and> p div ld = i then q
          else if p mod ld = w \<and> i < p div ld \<and> p div ld < n
               then chksum p - q * A (i * lda + p div ld)
          else chksum p)"
proof -
  have ld0: "0 < ld" using ld by simp
  have dm: "(c * ld + w) mod ld = w" "(c * ld + w) div ld = c" for c using ld by simp_all
  have pdec: "p = p div ld * ld + p mod ld" by simp
  show ?thesis
  proof (cases "p < w + (i + 1) * ld")
    case True
    have "\<not> (p mod ld = w \<and> i < p div ld)"
    proof
      assume h: "p mod ld = w \<and> i < p div ld"
      then have "Suc i \<le> p div ld" by simp
      then have "Suc i * ld \<le> p div ld * ld" by (rule mult_le_mono1)
      then have "(i + 1) * ld \<le> p div ld * ld" by simp
      with h pdec have "w + (i + 1) * ld \<le> p" by linarith
      with True show False by simp
    qed
    moreover have "p = i * ld + w \<longleftrightarrow> p mod ld = w \<and> p div ld = i"
      using dm pdec by metis
    ultimately show ?thesis using True by (auto simp: at_offset_def)
  next
    case False
    define t where "t = p - (w + (i + 1) * ld)"
    have p: "p = w + (i + 1) * ld + t" using False by (simp add: t_def)
    have ne: "p \<noteq> i * ld + w" using p ld0 by simp
    have val: "at_offset (w + (i + 1) * ld)
           (\<lambda>y. blasf77_daxpy (n - i - 1) (- 1 * q) (shift A (i * lda + i + 1)) 1 y ld)
           (chksum(i * ld + w := q)) p =
          (if t mod ld = 0 \<and> t div ld < n - i - 1
           then chksum p + (- 1 * q) * A (i * lda + i + 1 + t div ld) else chksum p)"
    proof -
      have "at_offset (w + (i + 1) * ld)
           (\<lambda>y. blasf77_daxpy (n - i - 1) (- 1 * q) (shift A (i * lda + i + 1)) 1 y ld)
           (chksum(i * ld + w := q)) p =
           blasf77_daxpy (n - i - 1) (- 1 * q) (shift A (i * lda + i + 1)) 1
             (shift (chksum(i * ld + w := q)) (w + (i + 1) * ld)) ld t"
        using False by (simp add: at_offset_def t_def)
      also have "\<dots> = (if t mod ld = 0 \<and> t div ld < n - i - 1
           then shift (chksum(i * ld + w := q)) (w + (i + 1) * ld) t
                + (- 1 * q) * shift A (i * lda + i + 1) (t div ld * 1)
           else shift (chksum(i * ld + w := q)) (w + (i + 1) * ld) t)"
        by (rule daxpy_apply[OF ld0])
      also have "shift (chksum(i * ld + w := q)) (w + (i + 1) * ld) t = chksum p"
        using ne unfolding shift_def p[symmetric] by simp
      also have "shift A (i * lda + i + 1) (t div ld * 1) = A (i * lda + i + 1 + t div ld)"
        by (simp add: shift_def)
      finally show ?thesis .
    qed
    show ?thesis
    proof (cases "t mod ld = 0")
      case True
      then have "ld dvd t" by (simp add: mod_eq_0_iff_dvd)
      then obtain u where "t = ld * u" by (rule dvdE)
      then have u: "t = u * ld" by (simp add: mult.commute)
      have pu: "p = (i + 1 + u) * ld + w" unfolding p u by (simp add: add_mult_distrib)
      have pm: "p mod ld = w" unfolding pu by (rule dm(1))
      have pd: "p div ld = i + 1 + u" unfolding pu by (rule dm(2))
      have td: "t div ld = u" using u ld0 by simp
      have a: "i * lda + i + 1 + u = i * lda + (i + 1 + u)" by simp
      show ?thesis
      proof (cases "i + 1 + u < n")
        case True
        then have "u < n - i - 1" by linarith
        with True \<open>t mod ld = 0\<close> show ?thesis
          unfolding val pm pd td a by simp
      next
        case False
        then have "\<not> u < n - i - 1" by linarith
        with False show ?thesis
          unfolding val pm pd td by simp
      qed
    next
      case False
      have "p mod ld \<noteq> w"
      proof
        assume h1: "p mod ld = w"
        have "p = (w + t) + (i + 1) * ld" using p by simp
        then have h2: "p mod ld = (w + t) mod ld" by (metis mod_mult_self1)
        have "(w + t) mod ld = w" by (rule trans[OF h2[symmetric] h1])
        then have a: "(w + t mod ld) mod ld = w" by (simp only: mod_add_right_eq)
        have b: "t mod ld < ld" using ld0 by simp
        have "t mod ld = 0"
        proof (cases "w + t mod ld < ld")
          case True
          with a show ?thesis by simp
        next
          case False
          then have "(w + t mod ld) mod ld = (w + t mod ld - ld) mod ld"
            by (simp add: le_mod_geq)
          also have "\<dots> = w + t mod ld - ld"
            using b ld by (intro mod_less) linarith
          finally show ?thesis using a False b by linarith
        qed
        with False show False by simp
      qed
      with False show ?thesis unfolding val by simp
    qed
  qed
qed

text \<open>
  When the leading dimension is \<open>n\<close> throughout, each loop is the recurrence of the
  specification on its own row of the checksum (for the factor stored in \<open>A\<close>), and it
  leaves the other row alone.
\<close>

lemma dpotrfFT_update_recurrence:
  assumes w: "w < ld" and diag: "\<forall>k<n. A (k * n + k) \<noteq> 0"
  shows "\<exists>c'. dpotrfFT_update w i A n n chksum ld = Inr c'
            \<and> (\<forall>c. c' (c * ld + w) =
                   fold (recurrence_step (\<lambda>r c. A (c * n + r)) n) [i..<n]
                     (\<lambda>c. chksum (c * ld + w)) c)
            \<and> (\<forall>p. p mod ld \<noteq> w \<longrightarrow> c' p = chksum p)"
proof (induction "n - i" arbitrary: i chksum)
  case 0
  then have "\<not> i < n" by simp
  then show ?case by (simp add: dpotrfFT_update.simps[of w i])
next
  case (Suc d)
  then have i: "i < n" and d: "d = n - Suc i" by simp_all
  let ?L = "\<lambda>r c. A (c * n + r)"
  define q where "q = chksum (i * ld + w) / A (i * n + i)"
  define chksum2 where "chksum2 = at_offset (w + (i + 1) * ld)
           (\<lambda>y. blasf77_daxpy (n - i - 1) (- 1 * q) (shift A (i * n + i + 1)) 1 y ld)
           (chksum(i * ld + w := q))"
  have nz: "A (i * n + i) \<noteq> 0" using diag i by simp
  have unfold: "dpotrfFT_update w i A n n chksum ld = dpotrfFT_update w (Suc i) A n n chksum2 ld"
    using i nz
    by (simp add: dpotrfFT_update.simps[of w i] fdiv_def get_def Let_def chksum2_def q_def)
  have dm: "(c * ld + w) mod ld = w" "(c * ld + w) div ld = c" for c using w by simp_all
  have it: "chksum2 p =
         (if p mod ld = w \<and> p div ld = i then q
          else if p mod ld = w \<and> i < p div ld \<and> p div ld < n
               then chksum p - q * A (i * n + p div ld)
          else chksum p)" for p
    unfolding chksum2_def by (rule update_iteration[OF w])
  have view: "(\<lambda>c. chksum2 (c * ld + w)) = recurrence_step ?L n i (\<lambda>c. chksum (c * ld + w))"
    using w by (intro ext) (simp add: it dm recurrence_step_def q_def)
  have frame: "chksum2 p = chksum p" if "p mod ld \<noteq> w" for p
    using that by (simp add: it)
  from Suc.hyps(1)[OF d, of chksum2] obtain c' where
    c': "dpotrfFT_update w (Suc i) A n n chksum2 ld = Inr c'"
        "\<forall>c. c' (c * ld + w) =
               fold (recurrence_step ?L n) [Suc i..<n] (\<lambda>c. chksum2 (c * ld + w)) c"
        "\<forall>p. p mod ld \<noteq> w \<longrightarrow> c' p = chksum2 p"
    by blast
  have "[i..<n] = i # [Suc i..<n]" using i by (rule upt_conv_Cons)
  then have "fold (recurrence_step ?L n) [i..<n] (\<lambda>c. chksum (c * ld + w)) =
             fold (recurrence_step ?L n) [Suc i..<n] (\<lambda>c. chksum2 (c * ld + w))"
    by (simp add: view)
  with c' unfold frame show ?case by simp
qed

lemma dpotrfFT_update_both_rows:
  assumes ld: "2 \<le> ld" and diag: "\<forall>k<n. A (k * n + k) \<noteq> 0"
  shows "\<exists>c1 c2. dpotrfFT_update 0 0 A n n chksum ld = Inr c1
            \<and> dpotrfFT_update 1 0 A n n c1 ld = Inr c2
            \<and> (\<forall>c. c2 (c * ld) =
                   checksum_recurrence (\<lambda>r c. A (c * n + r)) n (\<lambda>c. chksum (c * ld)) c)
            \<and> (\<forall>c. c2 (c * ld + 1) =
                   checksum_recurrence (\<lambda>r c. A (c * n + r)) n (\<lambda>c. chksum (c * ld + 1)) c)"
proof -
  have w0: "0 < ld" and w1: "1 < ld" using ld by simp_all
  from dpotrfFT_update_recurrence[OF w0 diag, of 0 chksum] obtain c1 where
    c1: "dpotrfFT_update 0 0 A n n chksum ld = Inr c1"
        "\<forall>c. c1 (c * ld + 0) =
               fold (recurrence_step (\<lambda>r c. A (c * n + r)) n) [0..<n] (\<lambda>c. chksum (c * ld + 0)) c"
        "\<forall>p. p mod ld \<noteq> 0 \<longrightarrow> c1 p = chksum p"
    by blast
  from dpotrfFT_update_recurrence[OF w1 diag, of 0 c1] obtain c2 where
    c2: "dpotrfFT_update 1 0 A n n c1 ld = Inr c2"
        "\<forall>c. c2 (c * ld + 1) =
               fold (recurrence_step (\<lambda>r c. A (c * n + r)) n) [0..<n] (\<lambda>c. c1 (c * ld + 1)) c"
        "\<forall>p. p mod ld \<noteq> 1 \<longrightarrow> c2 p = c1 p"
    by blast
  have m0: "(c * ld) mod ld \<noteq> 1" for c by simp
  have m1: "(c * ld + 1) mod ld \<noteq> 0" for c
  proof -
    have "(c * ld + 1) mod ld = 1 mod ld" by (rule mod_mult_self3)
    then show ?thesis using w1 by simp
  qed
  have r0: "c2 (c * ld) = c1 (c * ld)" for c using c2(3) m0 by blast
  have r1: "c1 (c * ld + 1) = chksum (c * ld + 1)" for c using c1(3) m1 by blast
  have v1: "(\<lambda>c. c1 (c * ld + 1)) = (\<lambda>c. chksum (c * ld + 1))" by (rule ext) (rule r1)
  have row0: "\<forall>c. c2 (c * ld) =
                 checksum_recurrence (\<lambda>r c. A (c * n + r)) n (\<lambda>c. chksum (c * ld)) c"
    using c1(2) unfolding checksum_recurrence_def r0 by simp
  have row1: "\<forall>c. c2 (c * ld + 1) =
                 checksum_recurrence (\<lambda>r c. A (c * n + r)) n (\<lambda>c. chksum (c * ld + 1)) c"
    using c2(2) unfolding checksum_recurrence_def v1 .
  from c1(1) c2(1) row0 row1 show ?thesis by blast
qed

subsection \<open>The claims\<close>

text \<open>
  C1. The checksums of C follow the data through the product. Let the stored checksum
  of \<open>op(A)\<close> (the buffer the code picks: the column checksum of A, or its row checksum
  when A is transposed) hold the column checksum of \<open>op(A)\<close> for the weights \<open>W\<close>, the
  stored checksum of \<open>op(B)\<close> its row checksum for the weights \<open>V\<close>, and the two
  checksums of C those of C. Then a call with FT set, a positive block size, leading
  dimensions the three products accept and checkers that find nothing to correct
  returns normally; the data of C is \<open>alpha op(A) op(B) + beta C\<close>; the column
  checksum of C has become \<open>alpha (checksum of A) op(B) + beta (old column checksum)\<close>
  and the row checksum \<open>alpha op(A) (checksum of B) + beta (old row checksum)\<close>; and
  both are again the checksums of the new C, for the same weights.
\<close>

theorem gemm_checksum_propagation:
  assumes keeps: "checker_keeps abft_checker_colchk" "checker_keeps abft_checker_rowchk"
      and nb: "0 < nb"
      and main_ok: "dgemm_args_ok transA transB m n k ldda lddb lddc"
      and chkA: "chkA = (if transA = MagmaNoTrans then dA_colchk s else dA_rowchk s)"
                "ldchkA = (if transA = MagmaNoTrans then ldda_colchk ld else ldda_rowchk ld)"
      and chkB: "chkB = (if transB = MagmaNoTrans then dB_rowchk s else dB_colchk s)"
                "ldchkB = (if transB = MagmaNoTrans then lddb_rowchk ld else lddb_colchk ld)"
      and col_ok: "dgemm_args_ok transA transB ((m div nb) * 2) n k ldchkA lddb (lddc_colchk ld)"
      and row_ok: "dgemm_args_ok transA transB m ((n div nb) * 2) k ldda ldchkB (lddc_rowchk ld)"
      and A_enc: "encodes_cols W ((m div nb) * 2) m k
                    (op_elem transA chkA ldchkA) (op_elem transA (dA s) ldda)"
      and B_enc: "encodes_rows V ((n div nb) * 2) k n
                    (op_elem transB chkB ldchkB) (op_elem transB (dB s) lddb)"
      and C_col: "encodes_cols W ((m div nb) * 2) m n
                    (elem (dC_colchk s) (lddc_colchk ld)) (elem (dC s) lddc)"
      and C_row: "encodes_rows V ((n div nb) * 2) m n
                    (elem (dC_rowchk s) (lddc_rowchk ld)) (elem (dC s) lddc)"
  shows "\<exists>s'. abft_dgemm abft_checker_colchk abft_checker_rowchk transA transB m n k
                 alpha ldda lddb beta lddc nb ld True DEBUG CHECK_BEFORE CHECK_AFTER s = Inr s'
            \<and> dC s' = magma_dgemm transA transB m n k alpha (dA s) ldda (dB s) lddb beta (dC s) lddc
            \<and> (\<forall>i<(m div nb) * 2. \<forall>j<n.
                  elem (dC_colchk s') (lddc_colchk ld) i j =
                    alpha * (\<Sum>l<k. op_elem transA chkA ldchkA i l * op_elem transB (dB s) lddb l j)
                    + beta * elem (dC_colchk s) (lddc_colchk ld) i j)
            \<and> (\<forall>i<m. \<forall>j<(n div nb) * 2.
                  elem (dC_rowchk s') (lddc_rowchk ld) i j =
                    alpha * (\<Sum>l<k. op_elem transA (dA s) ldda i l * op_elem transB chkB ldchkB l j)
                    + beta * elem (dC_rowchk s) (lddc_rowchk ld) i j)
            \<and> encodes_cols W ((m div nb) * 2) m n
                  (elem (dC_colchk s') (lddc_colchk ld)) (elem (dC s') lddc)
            \<and> encodes_rows V ((n div nb) * 2) m n
                  (elem (dC_rowchk s') (lddc_rowchk ld)) (elem (dC s') lddc)"
proof -
  define s1 where "s1 = (if CHECK_BEFORE
                then abft_dgemm_check_before abft_checker_colchk abft_checker_rowchk
                       transA transB m n k ldda lddb lddc nb ld DEBUG s
                else s)"
  define C' where "C' = magma_dgemm transA transB m n k alpha (dA s) ldda (dB s) lddb beta (dC s) lddc"
  define colchk' where "colchk' = magma_dgemm transA transB ((m div nb) * 2) n k alpha
                       chkA ldchkA (dB s) lddb beta (dC_colchk s) (lddc_colchk ld)"
  define rowchk' where "rowchk' = magma_dgemm transA transB m ((n div nb) * 2) k alpha (dA s) ldda
                       chkB ldchkB beta (dC_rowchk s) (lddc_rowchk ld)"
  define s3 where "s3 = abft_dgemm_propagate transA transB m n k alpha ldda lddb beta nb ld
                          (s1\<lparr>dC := magma_dgemm transA transB m n k alpha
                            (dA s1) ldda (dB s1) lddb beta (dC s1) lddc\<rparr>)"
  define s4 where "s4 = (if CHECK_AFTER
                       then abft_dgemm_check_C abft_checker_colchk abft_checker_rowchk
                              m n lddc nb ld DEBUG s3
                       else s3)"
  have p1: "same_protected s s1"
    unfolding s1_def by (simp add: same_protected_refl check_before_keeps[OF keeps])
  have s3: "dC s3 = C'" "dC_colchk s3 = colchk'" "dC_rowchk s3 = rowchk'"
    using p1 unfolding s3_def propagate_effect C'_def colchk'_def rowchk'_def chkA chkB
    by (simp_all add: same_protected_def)
  have p4: "same_protected s3 s4"
    unfolding s4_def by (simp add: same_protected_refl check_C_keeps[OF keeps])
  have s4: "dC s4 = C'" "dC_colchk s4 = colchk'" "dC_rowchk s4 = rowchk'"
    using p4 s3 by (simp_all add: same_protected_def)
  have run: "abft_dgemm abft_checker_colchk abft_checker_rowchk transA transB m n k
                 alpha ldda lddb beta lddc nb ld True DEBUG CHECK_BEFORE CHECK_AFTER s = Inr s4"
    using nb by (simp add: abft_dgemm_def Let_def s4_def s3_def s1_def)
  have C'_entry: "elem C' lddc t j =
          alpha * (\<Sum>l<k. op_elem transA (dA s) ldda t l * op_elem transB (dB s) lddb l j)
          + beta * elem (dC s) lddc t j" if "t < m" "j < n" for t j
    unfolding C'_def by (rule dgemm_elem[OF main_ok that])
  have col_entry: "elem colchk' (lddc_colchk ld) i j =
          alpha * (\<Sum>l<k. op_elem transA chkA ldchkA i l * op_elem transB (dB s) lddb l j)
          + beta * elem (dC_colchk s) (lddc_colchk ld) i j" if "i < (m div nb) * 2" "j < n" for i j
    unfolding colchk'_def by (rule dgemm_elem[OF col_ok that])
  have row_entry: "elem rowchk' (lddc_rowchk ld) i j =
          alpha * (\<Sum>l<k. op_elem transA (dA s) ldda i l * op_elem transB chkB ldchkB l j)
          + beta * elem (dC_rowchk s) (lddc_rowchk ld) i j" if "i < m" "j < (n div nb) * 2" for i j
    unfolding rowchk'_def by (rule dgemm_elem[OF row_ok that])
  have col_enc: "encodes_cols W ((m div nb) * 2) m n (elem colchk' (lddc_colchk ld)) (elem C' lddc)"
    unfolding encodes_cols_def
  proof (intro allI impI)
    fix i j assume i: "i < (m div nb) * 2" and j: "j < n"
    have "elem colchk' (lddc_colchk ld) i j =
            alpha * (\<Sum>l<k. (\<Sum>t<m. W i t * op_elem transA (dA s) ldda t l)
                              * op_elem transB (dB s) lddb l j)
            + beta * (\<Sum>t<m. W i t * elem (dC s) lddc t j)"
      using A_enc C_col i j by (simp add: col_entry encodes_cols_def)
    also have "\<dots> = (\<Sum>t<m. W i t *
                 (alpha * (\<Sum>l<k. op_elem transA (dA s) ldda t l * op_elem transB (dB s) lddb l j)
                  + beta * elem (dC s) lddc t j))"
      by (rule lin_left)
    also have "\<dots> = (\<Sum>t<m. W i t * elem C' lddc t j)"
      by (rule sum.cong) (simp_all add: C'_entry j)
    finally show "elem colchk' (lddc_colchk ld) i j = (\<Sum>t<m. W i t * elem C' lddc t j)" .
  qed
  have row_enc: "encodes_rows V ((n div nb) * 2) m n (elem rowchk' (lddc_rowchk ld)) (elem C' lddc)"
    unfolding encodes_rows_def
  proof (intro allI impI)
    fix i j assume i: "i < m" and j: "j < (n div nb) * 2"
    have "elem rowchk' (lddc_rowchk ld) i j =
            alpha * (\<Sum>l<k. op_elem transA (dA s) ldda i l
                              * (\<Sum>t<n. op_elem transB (dB s) lddb l t * V t j))
            + beta * (\<Sum>t<n. elem (dC s) lddc i t * V t j)"
      using B_enc C_row i j by (simp add: row_entry encodes_rows_def)
    also have "\<dots> = (\<Sum>t<n.
                 (alpha * (\<Sum>l<k. op_elem transA (dA s) ldda i l * op_elem transB (dB s) lddb l t)
                  + beta * elem (dC s) lddc i t) * V t j)"
      by (rule lin_right)
    also have "\<dots> = (\<Sum>t<n. elem C' lddc i t * V t j)"
      by (rule sum.cong) (simp_all add: C'_entry i)
    finally show "elem rowchk' (lddc_rowchk ld) i j = (\<Sum>t<n. elem C' lddc i t * V t j)" .
  qed
  show ?thesis
    using run s4 col_entry row_entry col_enc row_enc
    unfolding C'_def[symmetric] by (intro exI[of _ s4]) simp
qed

theorem gemm_checksum_propagation_witness:
  "\<exists>s'. abft_dgemm no_fault_checker no_fault_checker MagmaNoTrans MagmaNoTrans 2 2 2
                 1 2 2 1 2 2 (example_ld 2) True False True True example_mem = Inr s'
            \<and> dC s' = magma_dgemm MagmaNoTrans MagmaNoTrans 2 2 2 1 (dA example_mem) 2
                         (dB example_mem) 2 1 (dC example_mem) 2
            \<and> (\<forall>i<(2 div 2) * 2. \<forall>j<2.
                  elem (dC_colchk s') (lddc_colchk (example_ld 2)) i j =
                    1 * (\<Sum>l<2. op_elem MagmaNoTrans (dA_colchk example_mem)
                                   (ldda_colchk (example_ld 2)) i l
                                 * op_elem MagmaNoTrans (dB example_mem) 2 l j)
                    + 1 * elem (dC_colchk example_mem) (lddc_colchk (example_ld 2)) i j)
            \<and> (\<forall>i<2. \<forall>j<(2 div 2) * 2.
                  elem (dC_rowchk s') (lddc_rowchk (example_ld 2)) i j =
                    1 * (\<Sum>l<2. op_elem MagmaNoTrans (dA example_mem) 2 i l
                                 * op_elem MagmaNoTrans (dB_rowchk example_mem)
                                     (lddb_rowchk (example_ld 2)) l j)
                    + 1 * elem (dC_rowchk example_mem) (lddc_rowchk (example_ld 2)) i j)
            \<and> encodes_cols example_W ((2 div 2) * 2) 2 2
                  (elem (dC_colchk s') (lddc_colchk (example_ld 2))) (elem (dC s') 2)
            \<and> encodes_rows example_V ((2 div 2) * 2) 2 2
                  (elem (dC_rowchk s') (lddc_rowchk (example_ld 2))) (elem (dC s') 2)"
proof (rule gemm_checksum_propagation[where W = example_W and V = example_V])
  show "checker_keeps no_fault_checker" by (rule no_fault_checker_keeps)
  show "checker_keeps no_fault_checker" by (rule no_fault_checker_keeps)
  show "(0 :: nat) < 2" by simp
  show "dgemm_args_ok MagmaNoTrans MagmaNoTrans 2 2 2 2 2 2" by (simp add: dgemm_args_ok_def)
  show "dA_colchk example_mem =
          (if MagmaNoTrans = MagmaNoTrans then dA_colchk example_mem else dA_rowchk example_mem)"
    by simp
  show "ldda_colchk (example_ld 2) =
          (if MagmaNoTrans = MagmaNoTrans then ldda_colchk (example_ld 2)
           else ldda_rowchk (example_ld 2))"
    by simp
  show "dB_rowchk example_mem =
          (if MagmaNoTrans = MagmaNoTrans then dB_rowchk example_mem else dB_colchk example_mem)"
    by simp
  show "lddb_rowchk (example_ld 2) =
          (if MagmaNoTrans = MagmaNoTrans then lddb_rowchk (example_ld 2)
           else lddb_colchk (example_ld 2))"
    by simp
  show "dgemm_args_ok MagmaNoTrans MagmaNoTrans ((2 div 2) * 2) 2 2
          (ldda_colchk (example_ld 2)) 2 (lddc_colchk (example_ld 2))"
    by (simp add: dgemm_args_ok_def example_ld_def)
  show "dgemm_args_ok MagmaNoTrans MagmaNoTrans 2 ((2 div 2) * 2) 2 2
          (lddb_rowchk (example_ld 2)) (lddc_rowchk (example_ld 2))"
    by (simp add: dgemm_args_ok_def example_ld_def)
  show "encodes_cols example_W ((2 div 2) * 2) 2 2
          (op_elem MagmaNoTrans (dA_colchk example_mem) (ldda_colchk (example_ld 2)))
          (op_elem MagmaNoTrans (dA example_mem) 2)"
    by (auto simp: encodes_cols_def example_W_def example_mem_def example_ld_def op_elem_def
          elem_def sum_lessThan_numeral less_2_cases_iff)
  show "encodes_rows example_V ((2 div 2) * 2) 2 2
          (op_elem MagmaNoTrans (dB_rowchk example_mem) (lddb_rowchk (example_ld 2)))
          (op_elem MagmaNoTrans (dB example_mem) 2)"
    by (auto simp: encodes_rows_def example_V_def example_mem_def example_ld_def op_elem_def
          elem_def sum_lessThan_numeral less_2_cases_iff)
  show "encodes_cols example_W ((2 div 2) * 2) 2 2
          (elem (dC_colchk example_mem) (lddc_colchk (example_ld 2))) (elem (dC example_mem) 2)"
    by (simp add: encodes_cols_def example_mem_def elem_def)
  show "encodes_rows example_V ((2 div 2) * 2) 2 2
          (elem (dC_rowchk example_mem) (lddc_rowchk (example_ld 2))) (elem (dC example_mem) 2)"
    by (simp add: encodes_rows_def example_mem_def elem_def)
qed



text \<open>
  C3 (amended). With checkers that find nothing to correct (and a positive block size
  when FT is set), abft\_dgemm leaves on the data buffer of C exactly the result of \<^verbatim>\<open>magma_dgemm\<close> with
  the caller's flags, sizes, scalars and buffers, and leaves the data of A and B as they
  were, whether FT is set or not. dsyrkFT computes the same \<open>C\<close> with FT set as without
  and leaves \<open>A\<close> alone; but what it computes is the general product with the scalars
  \<open>-1\<close> and \<open>1\<close>, which agrees with the unprotected \<^verbatim>\<open>magma_dsyrk\<close> only for
  \<open>trans = MagmaNoTrans\<close>, \<open>alpha = -1\<close>, \<open>beta = 1\<close>, and only on the \<open>uplo\<close> triangle:
  the rank-k update leaves the other triangle untouched, the product overwrites it.
\<close>

theorem ft_keeps_main_kernel:
  assumes keeps: "checker_keeps abft_checker_colchk" "checker_keeps abft_checker_rowchk"
      and nb: "FT \<longrightarrow> 0 < nb"
  shows "(\<exists>s'. abft_dgemm abft_checker_colchk abft_checker_rowchk transA transB m n k
                  alpha ldda lddb beta lddc nb ld FT DEBUG CHECK_BEFORE CHECK_AFTER s = Inr s'
              \<and> dC s' = magma_dgemm transA transB m n k alpha (dA s) ldda (dB s) lddb beta (dC s) lddc
              \<and> dA s' = dA s \<and> dB s' = dB s)
       \<and> syrk_C (dsyrkFT uplo trans_op n' m' alpha' lda beta' ldc checksumA_ld checksumC_ld
                   vd_ld chk1_ld chk2_ld True DEBUG' VERIFY t) =
         syrk_C (dsyrkFT uplo trans_op n' m' alpha' lda beta' ldc checksumA_ld checksumC_ld
                   vd_ld chk1_ld chk2_ld False DEBUG' VERIFY t)
       \<and> syrk_A (dsyrkFT uplo trans_op n' m' alpha' lda beta' ldc checksumA_ld checksumC_ld
                   vd_ld chk1_ld chk2_ld True DEBUG' VERIFY t) = syrk_A t
       \<and> (\<forall>p. syrk_C (dsyrk_unprotected uplo MagmaNoTrans n' m' (- 1) lda 1 ldc t) p =
               (if (if uplo = MagmaLower then p div ldc \<le> p mod ldc else p mod ldc \<le> p div ldc)
                then syrk_C (dsyrkFT uplo MagmaNoTrans n' m' (- 1) lda 1 ldc checksumA_ld
                               checksumC_ld vd_ld chk1_ld chk2_ld True DEBUG' VERIFY t) p
                else syrk_C t p))"
proof -
  define s1 where "s1 = (if FT \<and> CHECK_BEFORE
                then abft_dgemm_check_before abft_checker_colchk abft_checker_rowchk
                       transA transB m n k ldda lddb lddc nb ld DEBUG s
                else s)"
  define s2 where "s2 = s1\<lparr>dC := magma_dgemm transA transB m n k alpha
                            (dA s1) ldda (dB s1) lddb beta (dC s1) lddc\<rparr>"
  define s3 where "s3 = abft_dgemm_propagate transA transB m n k alpha ldda lddb beta nb ld s2"
  define s4 where "s4 = (if CHECK_AFTER
                       then abft_dgemm_check_C abft_checker_colchk abft_checker_rowchk
                              m n lddc nb ld DEBUG s3
                       else s3)"
  have p1: "same_protected s s1"
    unfolding s1_def by (simp add: same_protected_refl check_before_keeps[OF keeps])
  have d2: "dA s2 = dA s" "dB s2 = dB s"
           "dC s2 = magma_dgemm transA transB m n k alpha (dA s) ldda (dB s) lddb beta (dC s) lddc"
    using p1 by (simp_all add: s2_def same_protected_def)
  have d3: "dA s3 = dA s2" "dB s3 = dB s2" "dC s3 = dC s2"
    by (simp_all add: s3_def propagate_effect)
  have "same_protected s3 s4"
    unfolding s4_def by (simp add: same_protected_refl check_C_keeps[OF keeps])
  then have d4: "dA s4 = dA s3" "dB s4 = dB s3" "dC s4 = dC s3"
    by (simp_all add: same_protected_def)
  have run: "abft_dgemm abft_checker_colchk abft_checker_rowchk transA transB m n k
                  alpha ldda lddb beta lddc nb ld FT DEBUG CHECK_BEFORE CHECK_AFTER s =
             Inr (if FT then s4 else s2)"
    using nb by (auto simp: abft_dgemm_def Let_def s4_def s3_def s2_def s1_def)
  have gemm: "\<exists>s'. abft_dgemm abft_checker_colchk abft_checker_rowchk transA transB m n k
                  alpha ldda lddb beta lddc nb ld FT DEBUG CHECK_BEFORE CHECK_AFTER s = Inr s'
              \<and> dC s' = magma_dgemm transA transB m n k alpha (dA s) ldda (dB s) lddb beta (dC s) lddc
              \<and> dA s' = dA s \<and> dB s' = dB s"
    unfolding run using d2 d3 d4 by (cases FT) simp_all
  have syrk: "syrk_C (dsyrkFT uplo trans_op n' m' alpha' lda beta' ldc checksumA_ld checksumC_ld
                   vd_ld chk1_ld chk2_ld True DEBUG' VERIFY t) =
         syrk_C (dsyrkFT uplo trans_op n' m' alpha' lda beta' ldc checksumA_ld checksumC_ld
                   vd_ld chk1_ld chk2_ld False DEBUG' VERIFY t)"
    by (simp add: dsyrkFT_def Let_def)
  have syrkA: "syrk_A (dsyrkFT uplo trans_op n' m' alpha' lda beta' ldc checksumA_ld checksumC_ld
                   vd_ld chk1_ld chk2_ld True DEBUG' VERIFY t) = syrk_A t"
    by (simp add: dsyrkFT_def Let_def)
  have tri: "\<forall>p. syrk_C (dsyrk_unprotected uplo MagmaNoTrans n' m' (- 1) lda 1 ldc t) p =
               (if (if uplo = MagmaLower then p div ldc \<le> p mod ldc else p mod ldc \<le> p div ldc)
                then syrk_C (dsyrkFT uplo MagmaNoTrans n' m' (- 1) lda 1 ldc checksumA_ld
                               checksumC_ld vd_ld chk1_ld chk2_ld True DEBUG' VERIFY t) p
                else syrk_C t p)"
    by (simp add: dsyrk_unprotected_def dsyrkFT_def Let_def dsyrk_triangle)
  from gemm syrk syrkA tri show ?thesis by blast
qed

theorem ft_keeps_main_kernel_witness:
  "checker_keeps no_fault_checker \<and> (0 :: nat) < 2
   \<and> (\<exists>s'. abft_dgemm no_fault_checker no_fault_checker MagmaNoTrans MagmaNoTrans 2 2 2
                  1 2 2 1 2 2 (example_ld 2) True False True True example_mem = Inr s'
              \<and> dC s' = magma_dgemm MagmaNoTrans MagmaNoTrans 2 2 2 1 (dA example_mem) 2
                           (dB example_mem) 2 1 (dC example_mem) 2
              \<and> dA s' = dA example_mem \<and> dB s' = dB example_mem)"
proof -
  have nb: "True \<longrightarrow> (0 :: nat) < 2" by simp
  show ?thesis
    using ft_keeps_main_kernel[OF no_fault_checker_keeps no_fault_checker_keeps nb,
            where transA = MagmaNoTrans and transB = MagmaNoTrans and m = 2 and n = 2 and k = 2
              and alpha = 1 and ldda = 2 and lddb = 2 and beta = 1 and lddc = 2
              and ld = "example_ld 2" and DEBUG = False and CHECK_BEFORE = True
              and CHECK_AFTER = True and s = example_mem]
          no_fault_checker_keeps
    by simp
qed

text \<open>
  The claim as stated fails for dsyrkFT: with \<open>alpha = 2\<close> the unprotected update gives
  \<open>2\<close> where dsyrkFT gives \<open>-1\<close>; and with \<open>alpha = -1\<close>, \<open>beta = 1\<close> and the lower
  triangle, entry \<open>(0, 1)\<close> of a \<open>2\<close> by \<open>2\<close> matrix is kept by the unprotected update and
  changed by dsyrkFT.
\<close>

theorem dsyrkFT_differs_from_dsyrk:
  "syrk_C (dsyrkFT MagmaLower MagmaNoTrans 1 1 2 1 1 1 2 2 1 1 1 True False False example_syrk) 0 = - 1
   \<and> syrk_C (dsyrk_unprotected MagmaLower MagmaNoTrans 1 1 2 1 1 1 example_syrk) 0 = 2
   \<and> syrk_C (dsyrkFT MagmaLower MagmaNoTrans 2 1 (- 1) 2 1 2 2 2 1 1 1 True False False example_syrk) 2 = - 1
   \<and> syrk_C (dsyrk_unprotected MagmaLower MagmaNoTrans 2 1 (- 1) 2 1 2 example_syrk) 2 = 0"
  by (simp add: dsyrkFT_def dsyrk_unprotected_def magma_dsyrk_def magma_dgemm_def dgemm_args_ok_def
        op_elem_def elem_def Let_def example_syrk_def)

text \<open>
  C4 (amended). The kernel reports nothing and counts nothing: every column whose
  first checksum is off by more than the tolerance gets its own patch, however many such
  columns there are. Provided each located row lies inside its column, the launch
  returns the matrix \<open>patched\<close>, in which every flagged column \<open>c\<close> has
  \<open>chksumC1[c] - chkC1[c]\<close> added at its located row and nothing else is changed.
\<close>

theorem every_flagged_column_patched:
  assumes "\<forall>c<n. flagged chksumC1 incC1 chkC1 incC1_2 c \<longrightarrow>
             0 \<le> located_row chksumC1 incC1 chksumC2 incC2 chkC1 incC1_2 chkC2 incC2_2 c \<and>
             located_row chksumC1 incC1 chksumC2 incC2 chkC1 incC1_2 chkC2 incC2_2 c < int ldc"
  shows "detectAndCorrectForSyrk_launch n C ldc chksumC1 incC1 chksumC2 incC2
           chkC1 incC1_2 chkC2 incC2_2 =
         Inr (patched n C ldc chksumC1 incC1 chksumC2 incC2 chkC1 incC1_2 chkC2 incC2_2)"
  unfolding detectAndCorrectForSyrk_launch_def
  using assms
proof (induction n)
  case 0
  show ?case by (simp add: patched_def)
next
  case (Suc k)
  let ?row = "located_row chksumC1 incC1 chksumC2 incC2 chkC1 incC1_2 chkC2 incC2_2"
  have IH: "detectAndCorrectForSyrk_threads [0..<k] C ldc chksumC1 incC1 chksumC2 incC2 chkC1 incC1_2 chkC2 incC2_2 =
           Inr (patched k C ldc chksumC1 incC1 chksumC2 incC2 chkC1 incC1_2 chkC2 incC2_2)"
    using Suc by simp
  show ?case
  proof (cases "flagged chksumC1 incC1 chkC1 incC1_2 k")
    case False
    then have "\<bar>chkC1 (k * incC1_2) - chksumC1 (k * incC1)\<bar> \<le> tolerance" by (simp add: flagged_def)
    then have "detectAndCorrectForSyrk k X ldc chksumC1 incC1 chksumC2 incC2 chkC1 incC1_2 chkC2 incC2_2 = Inr X" for X
      by (rule thread_below_tolerance)
    then have "detectAndCorrectForSyrk_threads [0..<Suc k] C ldc chksumC1 incC1 chksumC2 incC2 chkC1 incC1_2 chkC2 incC2_2 =
            Inr (patched k C ldc chksumC1 incC1 chksumC2 incC2 chkC1 incC1_2 chkC2 incC2_2)"
      by (simp add: threads_append IH)
    moreover have "patched (Suc k) C ldc chksumC1 incC1 chksumC2 incC2 chkC1 incC1_2 chkC2 incC2_2 =
                   patched k C ldc chksumC1 incC1 chksumC2 incC2 chkC1 incC1_2 chkC2 incC2_2"
      using False by (auto simp: patched_def fun_eq_iff less_Suc_eq)
    ultimately show ?thesis by simp
  next
    case True
    with Suc.prems have lo: "0 \<le> ?row k" and hi: "?row k < int ldc" by auto
    let ?a = "nat (?row k) + k * ldc"
    have lt: "nat (?row k) < ldc" using lo hi by linarith
    then have dm: "?a div ldc = k" "?a mod ldc = nat (?row k)" by simp_all
    have only: "p = ?a" if "p div ldc = k" "int (p mod ldc) = ?row k" for p
    proof -
      have "p = p mod ldc + p div ldc * ldc" by simp
      also have "p mod ldc = nat (?row k)" using that(2) by linarith
      finally show ?thesis using that(1) by simp
    qed
    have "detectAndCorrectForSyrk_threads [0..<Suc k] C ldc chksumC1 incC1 chksumC2 incC2 chkC1 incC1_2 chkC2 incC2_2 =
            Inr ((patched k C ldc chksumC1 incC1 chksumC2 incC2 chkC1 incC1_2 chkC2 incC2_2)
                   (?a := patched k C ldc chksumC1 incC1 chksumC2 incC2 chkC1 incC1_2 chkC2 incC2_2 ?a + (chksumC1 (k * incC1) - chkC1 (k * incC1_2))))"
      by (simp add: threads_append IH thread_flagged[OF True lo])
    moreover have "(patched k C ldc chksumC1 incC1 chksumC2 incC2 chkC1 incC1_2 chkC2 incC2_2)
                   (?a := patched k C ldc chksumC1 incC1 chksumC2 incC2 chkC1 incC1_2 chkC2 incC2_2 ?a + (chksumC1 (k * incC1) - chkC1 (k * incC1_2)))
                 = patched (Suc k) C ldc chksumC1 incC1 chksumC2 incC2 chkC1 incC1_2 chkC2 incC2_2"
    proof (rule ext)
      fix p
      show "((patched k C ldc chksumC1 incC1 chksumC2 incC2 chkC1 incC1_2 chkC2 incC2_2)
                   (?a := patched k C ldc chksumC1 incC1 chksumC2 incC2 chkC1 incC1_2 chkC2 incC2_2 ?a + (chksumC1 (k * incC1) - chkC1 (k * incC1_2)))) p
                 = patched (Suc k) C ldc chksumC1 incC1 chksumC2 incC2 chkC1 incC1_2 chkC2 incC2_2 p"
      proof (cases "p = ?a")
        case True
        then show ?thesis using dm \<open>flagged chksumC1 incC1 chkC1 incC1_2 k\<close> lo
          by (simp add: patched_def)
      next
        case False
        then have "\<not> (p div ldc = k \<and> int (p mod ldc) = ?row k)" using only by blast
        with False show ?thesis by (auto simp: patched_def less_Suc_eq)
      qed
    qed
    ultimately show ?thesis by simp
  qed
qed

theorem every_flagged_column_patched_witness:
  "let stored = recalculate_checksum 2 (weight_vectors 2) 2 (\<lambda>_. 0) 2 (\<lambda>_. 0) 2;
       Cbad = (\<lambda>_. 0)(0 := 5, 3 := 7);
       chk = recalculate_checksum 2 (weight_vectors 2) 2 Cbad 2 (\<lambda>_. 0) 2
   in flagged stored 2 chk 2 0 \<and> flagged stored 2 chk 2 1
    \<and> detectAndCorrectForSyrk_launch 2 Cbad 2 stored 2 (shift stored 1) 2 chk 2 (shift chk 1) 2
        = Inr (patched 2 Cbad 2 stored 2 (shift stored 1) 2 chk 2 (shift chk 1) 2)
    \<and> patched 2 Cbad 2 stored 2 (shift stored 1) 2 chk 2 (shift chk 1) 2 0 = 0
    \<and> patched 2 Cbad 2 stored 2 (shift stored 1) 2 chk 2 (shift chk 1) 2 3 = 0"
proof -
  define stored where "stored = recalculate_checksum 2 (weight_vectors 2) 2 (\<lambda>_. 0) 2 (\<lambda>_. 0) 2"
  define Cbad :: buf where "Cbad = (\<lambda>_. 0)(0 := 5, 3 := 7)"
  define chk where "chk = recalculate_checksum 2 (weight_vectors 2) 2 Cbad 2 (\<lambda>_. 0) 2"
  have vals: "stored 0 = 0" "stored (Suc 0) = 0" "stored 2 = 0" "stored 3 = 0"
             "chk 0 = 5" "chk (Suc 0) = 5" "chk 2 = 7" "chk 3 = 14"
    by (simp_all add: stored_def chk_def Cbad_def eval_blas)
  have f: "flagged stored 2 chk 2 0" "flagged stored 2 chk 2 1"
    by (simp_all add: flagged_def vals tolerance_def)
  have rows: "located_row stored 2 (shift stored 1) 2 chk 2 (shift chk 1) 2 0 = 0"
             "located_row stored 2 (shift stored 1) 2 chk 2 (shift chk 1) 2 1 = 1"
    by (simp_all add: located_row_def shift_def vals c_round_def)
  have hyp: "\<forall>c<2. flagged stored 2 chk 2 c \<longrightarrow>
             0 \<le> located_row stored 2 (shift stored 1) 2 chk 2 (shift chk 1) 2 c \<and>
             located_row stored 2 (shift stored 1) 2 chk 2 (shift chk 1) 2 c < int 2"
    using rows by (auto simp: less_2_cases_iff)
  have "patched 2 Cbad 2 stored 2 (shift stored 1) 2 chk 2 (shift chk 1) 2 0 = 0"
       "patched 2 Cbad 2 stored 2 (shift stored 1) 2 chk 2 (shift chk 1) 2 3 = 0"
    using f rows by (simp_all add: patched_def vals Cbad_def)
  with f every_flagged_column_patched[OF hyp, of Cbad]
  show ?thesis by (simp add: Let_def stored_def chk_def Cbad_def)
qed

text \<open>
  The claim as stated fails: with both columns of a \<open>2\<close> by \<open>2\<close> matrix corrupted
  (\<open>5\<close> added at \<open>(0, 0)\<close>, \<open>7\<close> at \<open>(1, 1)\<close>) both columns disagree with their stored
  checksums, and the launch returns normally with both entries patched.
\<close>

theorem multiple_columns_counterexample:
  "let stored = recalculate_checksum 2 (weight_vectors 2) 2 (\<lambda>_. 0) 2 (\<lambda>_. 0) 2;
       Cbad = (\<lambda>_. 0)(0 := 5, 3 := 7);
       chk = recalculate_checksum 2 (weight_vectors 2) 2 Cbad 2 (\<lambda>_. 0) 2
   in tolerance < \<bar>chk 0 - stored 0\<bar> \<and> tolerance < \<bar>chk 2 - stored 2\<bar> \<and>
      detectAndCorrectForSyrk_launch 2 Cbad 2 stored 2 (shift stored 1) 2 chk 2 (shift chk 1) 2
        = Inr (\<lambda>_. 0)"
  by (simp add: Let_def recalculate_checksum_def magma_dgemm_def dgemm_args_ok_def op_elem_def elem_def
       weight_vectors_def sum_lessThan_numeral detectAndCorrectForSyrk_launch_def
       detectAndCorrectForSyrk_def fdiv_def c_round_def shift_def upt_rec fun_eq_iff tolerance_def)

text \<open>
  C5. The claim is that each checksum row is updated column by column by
  \<open>chk[k] = chk[k] / L[k,k]\<close> followed by \<open>chk[k+1:] -= chk[k] * L[k+1:,k]\<close>. The loops
  do this when \<open>lda = n\<close> (\<open>dpotrfFT_update_both_rows\<close> above). In general they do not,
  because they read the same matrix with two leading dimensions: the diagonal through
  \<^verbatim>\<open>get(A, n, n, i, i)\<close>, the column below it at \<^verbatim>\<open>A + i*lda + i+1\<close>. For \<open>n = 3\<close>,
  \<open>lda = 4\<close>, the factor \<open>A[p] = p + 1\<close> and a checksum row \<open>(60, 60, 60)\<close> the loop
  returns \<open>(60, -12, -4)\<close>. The recurrence gives \<open>-10\<close> at entry \<open>1\<close> when \<open>L\<close> is read
  with the leading dimension \<open>lda = 4\<close>, and \<open>-16/3\<close> at entry \<open>2\<close> when \<open>L\<close> is read with
  the leading dimension \<open>n = 3\<close> that the factorization was given: the loop matches
  neither.
\<close>

theorem dpotrfFT_update_mixes_leading_dimensions:
  "(case dpotrfFT_update 0 0 (\<lambda>p. real (p + 1)) 4 3 (\<lambda>_. 60) 2 of
      Inl e \<Rightarrow> False
    | Inr c \<Rightarrow> c 0 = 60 \<and> c 2 = - 12 \<and> c 4 = - 4)
   \<and> checksum_recurrence (\<lambda>r c. real (c * 4 + r + 1)) 3 (\<lambda>_. 60) 1 = - 10
   \<and> checksum_recurrence (\<lambda>r c. real (c * 3 + r + 1)) 3 (\<lambda>_. 60) 2 = - (16 / 3)"
  by (simp add: dpotrfFT_update.simps fdiv_def get_def Let_def at_offset_def blasf77_daxpy_def
        shift_def checksum_recurrence_def recurrence_step_def upt_rec)




text \<open>
  C7 (amended). abft\_dgemm has no error result for dimensions and checks none: whatever
  \<open>m\<close>, \<open>n\<close>, \<open>k\<close> and the leading dimensions are, it issues the main product and, with
  FT, the two checksum products. Without the optional checks its result is given in
  full below; with any flags and checkers the only abnormal end is the integer division
  by a zero block size when FT is set. A product whose own leading dimensions are too
  small is dropped by the BLAS and leaves its output buffer as it was, while the other
  products of the call still take effect; the same holds for the recomputation of a
  checksum (Encode), which has no error result either.
\<close>

theorem abft_dgemm_checks_no_dimension:
  "abft_dgemm abft_checker_colchk abft_checker_rowchk transA transB m n k
       alpha ldda lddb beta lddc nb ld FT DEBUG False False s =
     (if FT \<and> nb = 0 then Inl IntDivByZero
      else Inr ((if FT then abft_dgemm_propagate transA transB m n k alpha ldda lddb beta nb ld
                 else id)
                (s\<lparr>dC := magma_dgemm transA transB m n k alpha (dA s) ldda (dB s) lddb beta (dC s) lddc\<rparr>)))
   \<and> (isl (abft_dgemm abft_checker_colchk abft_checker_rowchk transA transB m n k
              alpha ldda lddb beta lddc nb ld FT DEBUG CHECK_BEFORE CHECK_AFTER s)
        \<longleftrightarrow> FT \<and> nb = 0)
   \<and> magma_dgemm transA transB m n k alpha A ldda B lddb beta C lddc =
       (if dgemm_args_ok transA transB m n k ldda lddb lddc
        then magma_dgemm transA transB m n k alpha A ldda B lddb beta C lddc else C)
   \<and> recalculate_checksum n' vd vd_ld C' ldc chk chk_ld =
       (if dgemm_args_ok MagmaTrans MagmaNoTrans 2 n' n' vd_ld ldc chk_ld
        then recalculate_checksum n' vd vd_ld C' ldc chk chk_ld else chk)"
  by (simp add: abft_dgemm_def Let_def magma_dgemm_def recalculate_checksum_def)

text \<open>
  The claim as stated fails: with a leading dimension of \<open>1\<close> for the two-row column
  checksum of C the call returns normally, the data of C and its row checksum are
  updated and the column checksum is not.
\<close>

theorem inconsistent_stride_not_rejected:
  "(case abft_dgemm no_fault_checker no_fault_checker MagmaNoTrans MagmaNoTrans 2 2 2
           1 2 2 1 2 2 (example_ld 1) True False False False example_mem of
      Inl e \<Rightarrow> False
    | Inr s' \<Rightarrow> dC example_mem 0 = 0 \<and> dC s' 0 = 2
              \<and> dC_rowchk example_mem 0 = 0 \<and> dC_rowchk s' 0 = 4
              \<and> dC_colchk s' = dC_colchk example_mem)"
  by (simp add: abft_dgemm_def abft_dgemm_propagate_def Let_def example_mem_def example_ld_def
        magma_dgemm_def dgemm_args_ok_def op_elem_def elem_def sum_lessThan_numeral)

text \<open>
  C8. When the first checksum of a column differs by at most the tolerance of the guard
  (the double \<^verbatim>\<open>0.1\<close>, so in particular by at most \<open>1/10\<close>), the
  thread of that column returns the matrix unchanged; and for no input at all does a
  thread divide by zero: the quotient \<open>diff2 / diff\<close> is only formed under
  \<open>diff > 0.1\<close>, so the conversion to \<^verbatim>\<open>int\<close> never sees an infinity or a NaN.
\<close>

theorem corrector_guarded:
  "(\<bar>chkC1 (col * incC1_2) - chksumC1 (col * incC1)\<bar> \<le> tolerance \<longrightarrow>
      detectAndCorrectForSyrk col C ldc chksumC1 incC1 chksumC2 incC2 chkC1 incC1_2 chkC2 incC2_2
        = Inr C)
   \<and> detectAndCorrectForSyrk col C ldc chksumC1 incC1 chksumC2 incC2 chkC1 incC1_2 chkC2 incC2_2
        \<noteq> Inl NonFinite"
  by (auto simp: detectAndCorrectForSyrk_def fdiv_def Let_def tolerance_def
        split: option.splits if_splits)

theorem corrector_guarded_witness:
  "\<bar>(1 / 20 :: real) - 0\<bar> \<le> tolerance
   \<and> detectAndCorrectForSyrk 0 (\<lambda>_. 7) 1 (\<lambda>_. 0) 1 (\<lambda>_. 0) 1 (\<lambda>_. 1 / 20) 1 (\<lambda>_. 3) 1
       = Inr (\<lambda>_. 7)"
  using corrector_guarded[of "\<lambda>_. 1 / 20" 0 1 "\<lambda>_. 0" 1 "\<lambda>_. 7" 1 "\<lambda>_. 0" 1 "\<lambda>_. 3" 1]
  by (simp add: tolerance_def)

text \<open>
  C9. dsyrkFT never looks at \<open>uplo\<close>, \<open>trans\<close>, \<open>alpha\<close> or \<open>beta\<close>: any two calls that
  differ in these four arguments only give the same memory. With leading dimensions
  the product accepts, every entry \<open>(i, j)\<close> of the \<open>n\<close> by \<open>n\<close> matrix \<open>C\<close>, in both
  triangles, becomes \<open>C[i,j] - \<Sum>\<^sub>l A[i,l] A[j,l]\<close>, that is \<open>C := C - A A\<^sup>T\<close> with \<open>A\<close>
  read untransposed as \<open>n\<close> by \<open>m\<close>, and nothing else of the buffer of \<open>C\<close> changes. The
  witness calls it with \<open>uplo = Upper\<close>, \<open>trans = Trans\<close>, \<open>alpha = 7\<close>, \<open>beta = 3\<close>.
\<close>

theorem dsyrkFT_ignores_uplo_trans_alpha_beta:
  assumes lds: "max 1 n \<le> lda" "max 1 n \<le> ldc"
  shows "dsyrkFT uplo trans_op n m alpha lda beta ldc checksumA_ld checksumC_ld vd_ld chk1_ld
             chk2_ld FT DEBUG VERIFY s =
         dsyrkFT uplo' trans_op' n m alpha' lda beta' ldc checksumA_ld checksumC_ld vd_ld chk1_ld
             chk2_ld FT DEBUG VERIFY s
       \<and> (\<forall>i<n. \<forall>j<n.
             elem (syrk_C (dsyrkFT uplo trans_op n m alpha lda beta ldc checksumA_ld checksumC_ld
                             vd_ld chk1_ld chk2_ld FT DEBUG VERIFY s)) ldc i j =
             elem (syrk_C s) ldc i j - (\<Sum>l<m. elem (syrk_A s) lda i l * elem (syrk_A s) lda j l))
       \<and> (\<forall>p. \<not> (p mod ldc < n \<and> p div ldc < n) \<longrightarrow>
              syrk_C (dsyrkFT uplo trans_op n m alpha lda beta ldc checksumA_ld checksumC_ld
                        vd_ld chk1_ld chk2_ld FT DEBUG VERIFY s) p = syrk_C s p)"
proof -
  let ?C' = "syrk_C (dsyrkFT uplo trans_op n m alpha lda beta ldc checksumA_ld checksumC_ld
                       vd_ld chk1_ld chk2_ld FT DEBUG VERIFY s)"
  have C': "?C' = magma_dgemm MagmaNoTrans MagmaTrans n n m (- 1) (syrk_A s) lda (syrk_A s) lda
                    1 (syrk_C s) ldc"
    by (simp add: dsyrkFT_def Let_def)
  have ok: "dgemm_args_ok MagmaNoTrans MagmaTrans n n m lda lda ldc"
    using lds by (simp add: dgemm_args_ok_def)
  have inside: "elem ?C' ldc i j =
        elem (syrk_C s) ldc i j - (\<Sum>l<m. elem (syrk_A s) lda i l * elem (syrk_A s) lda j l)"
    if "i < n" "j < n" for i j
    unfolding C' dgemm_elem[OF ok that] by (simp add: op_elem_def)
  have outside: "?C' p = syrk_C s p" if "\<not> (p mod ldc < n \<and> p div ldc < n)" for p
    unfolding C' using that by (auto simp: magma_dgemm_def)
  have indep: "dsyrkFT uplo trans_op n m alpha lda beta ldc checksumA_ld checksumC_ld vd_ld
                 chk1_ld chk2_ld FT DEBUG VERIFY s =
               dsyrkFT uplo' trans_op' n m alpha' lda beta' ldc checksumA_ld checksumC_ld vd_ld
                 chk1_ld chk2_ld FT DEBUG VERIFY s"
    by (simp add: dsyrkFT_def Let_def)
  from indep inside outside show ?thesis by blast
qed

theorem dsyrkFT_ignores_uplo_trans_alpha_beta_witness:
  "dsyrkFT MagmaUpper MagmaTrans 2 2 7 2 3 3 2 2 2 1 1 True False True example_syrk2 =
   dsyrkFT MagmaLower MagmaNoTrans 2 2 (- 1) 2 1 3 2 2 2 1 1 True False True example_syrk2
   \<and> syrk_C (dsyrkFT MagmaUpper MagmaTrans 2 2 7 2 3 3 2 2 2 1 1 True False True example_syrk2) 0
       = 100 - (1 * 1 + 3 * 3)
   \<and> syrk_C (dsyrkFT MagmaUpper MagmaTrans 2 2 7 2 3 3 2 2 2 1 1 True False True example_syrk2) 1
       = 100 - (2 * 1 + 4 * 3)
   \<and> syrk_C (dsyrkFT MagmaUpper MagmaTrans 2 2 7 2 3 3 2 2 2 1 1 True False True example_syrk2) 3
       = 100 - (1 * 2 + 3 * 4)
   \<and> syrk_C (dsyrkFT MagmaUpper MagmaTrans 2 2 7 2 3 3 2 2 2 1 1 True False True example_syrk2) 4
       = 100 - (2 * 2 + 4 * 4)
   \<and> syrk_C (dsyrkFT MagmaUpper MagmaTrans 2 2 7 2 3 3 2 2 2 1 1 True False True example_syrk2) 2
       = 100"
  using dsyrkFT_ignores_uplo_trans_alpha_beta[where n = 2 and m = 2 and lda = 2 and ldc = 3
      and uplo = MagmaUpper and trans_op = MagmaTrans and alpha = 7 and beta = 3
      and uplo' = MagmaLower and trans_op' = MagmaNoTrans and alpha' = "- 1" and beta' = 1
      and checksumA_ld = 2 and checksumC_ld = 2 and vd_ld = 2 and ?chk1_ld.0 = 1
      and ?chk2_ld.0 = 1 and FT = True and DEBUG = False and VERIFY = True and s = example_syrk2]
  by (simp add: dsyrkFT_def Let_def eval_blas example_syrk2_def)

text \<open>
  C10. With FT disabled abft\_dgemm does exactly one thing: the plain product on the
  data buffer of C. Every other buffer of the call (the data of A and B, the stored and
  the recomputed column and row checksums of A, B and C, the weight vectors) is left as
  it was, whatever CHECK\_BEFORE, CHECK\_AFTER, DEBUG and the block size are.
\<close>

theorem abft_dgemm_FT_disabled:
  "abft_dgemm abft_checker_colchk abft_checker_rowchk transA transB m n k
       alpha ldda lddb beta lddc nb ld False DEBUG CHECK_BEFORE CHECK_AFTER s =
     Inr (s\<lparr>dC := magma_dgemm transA transB m n k alpha (dA s) ldda (dB s) lddb beta (dC s) lddc\<rparr>)"
  by (simp add: abft_dgemm_def)

end
